theory Spec2Isabelle
  imports Main "HOL-Library.Word"
begin

unbundle bit_operations_syntax

section \<open>Machine integers, errors, little-endian scalars\<close>

type_synonym u8 = "8 word"
type_synonym u16 = "16 word"
type_synonym u32 = "32 word"
type_synonym u64 = "64 word"

text \<open>
  Every exception the modelled code throws is a value of \<open>error\<close>. The C++ code throws
  \<open>std::runtime_error\<close>, \<open>std::invalid_argument\<close> and \<open>std::out_of_range\<close> with a
  message; one constructor stands for each throw site that the model reaches.
  \<open>IndexFailure\<close> stands for a B+Tree operation that does not return normally (a node
  page that cannot be loaded, a child slot that does not exist, a descent that never
  reaches a leaf).
\<close>

datatype error =
    CannotDeallocateMetadataPage
  | WriteExceedsPageBoundary
  | ReadExceedsPageBoundary
  | CannotReadPage u64
  | InvalidPageHeader u64
  | InvalidDatabaseFileFormat
  | IncompatibleDatabaseVersion u32
  | RecordAlreadyExists
  | RecordTooLarge
  | UpdatedRecordTooLarge
  | RecordNotFound
  | NotEnoughData
  | IndexFailure

text \<open>
  Scalars are copied into a page with \<open>memcpy\<close> from a little-endian host:
  \<open>le_bytes n w\<close> is the first \<open>n\<close> bytes of \<open>w\<close>, least significant first, and
  \<open>from_le_bytes\<close> reads such bytes back.
\<close>

fun le_bytes :: "nat \<Rightarrow> 'a::len word \<Rightarrow> u8 list" where
  "le_bytes 0 w = []"
| "le_bytes (Suc n) w = ucast w # le_bytes n (drop_bit 8 w)"

fun from_le_bytes :: "u8 list \<Rightarrow> 'a::len word" where
  "from_le_bytes [] = 0"
| "from_le_bytes (b # bs) = ucast b OR push_bit 8 (from_le_bytes bs)"

section \<open>Page.hpp\<close>

definition MAGIC_NUMBER :: string where
  "MAGIC_NUMBER = ''LQL1''"

definition PAGE_SIZE :: nat where
  "PAGE_SIZE = 4096"

datatype PageType = FREE | DATA | INDEX | METADATA | OVERFLOW_DATA

text \<open>The packed 64-byte header; \<open>sizeof(PageHeader)\<close> is \<open>HEADER_SIZE\<close>.\<close>

definition HEADER_SIZE :: nat where
  "HEADER_SIZE = 64"

record PageHeader =
  magic :: string
  page_id :: u64
  page_type :: PageType
  version :: u8
  record_count :: u16
  free_space_offset :: u16
  next_page_id :: u64
  checksum :: u32
  reserved :: "u8 list"

definition PageHeader_default :: PageHeader where
  "PageHeader_default =
     \<lparr>magic = MAGIC_NUMBER, page_id = 0, page_type = FREE, version = 1, record_count = 0,
      free_space_offset = of_nat HEADER_SIZE, next_page_id = 0, checksum = 0,
      reserved = replicate 34 0\<rparr>"

definition is_valid :: "PageHeader \<Rightarrow> bool" where
  "is_valid h \<longleftrightarrow> magic h = MAGIC_NUMBER"

definition DATA_SIZE :: nat where
  "DATA_SIZE = PAGE_SIZE - HEADER_SIZE"

record Page =
  header :: PageHeader
  data :: "u8 list"

text \<open>\<open>Page()\<close> and \<open>Page(page_id, type)\<close>.\<close>

definition Page_default :: Page where
  "Page_default = \<lparr>header = PageHeader_default, data = replicate DATA_SIZE 0\<rparr>"

definition Page_new :: "u64 \<Rightarrow> PageType \<Rightarrow> Page" where
  "Page_new pid type =
     \<lparr>header = PageHeader_default\<lparr>page_id := pid, page_type := type\<rparr>,
      data = replicate DATA_SIZE 0\<rparr>"

text \<open>
  \<open>write_data\<close> and \<open>read_data\<close> test \<open>offset + size > DATA_SIZE\<close> with the sum computed
  in \<open>size_t\<close> (64 bits, unsigned), so a sum that wraps around passes the test; the
  \<open>memcpy\<close> that follows is then out of bounds, where the model copies what the lists
  hold.
\<close>

definition write_data :: "nat \<Rightarrow> u8 list \<Rightarrow> Page \<Rightarrow> error + Page" where
  "write_data offset src p =
     (if (offset + length src) mod 2 ^ 64 > DATA_SIZE then Inl WriteExceedsPageBoundary
      else Inr (p\<lparr>data := take offset (data p) @ src @ drop (offset + length src) (data p)\<rparr>))"

definition read_data :: "nat \<Rightarrow> nat \<Rightarrow> Page \<Rightarrow> error + u8 list" where
  "read_data offset n p =
     (if (offset + n) mod 2 ^ 64 > DATA_SIZE then Inl ReadExceedsPageBoundary
      else Inr (take n (drop offset (data p))))"

definition clear :: "Page \<Rightarrow> Page" where
  "clear p = \<lparr>header = PageHeader_default, data = replicate DATA_SIZE 0\<rparr>"

text \<open>
  \<open>available_space\<close> is computed in \<open>size_t\<close> (64 bits, unsigned):
  \<open>DATA_SIZE - free_space_offset + sizeof(PageHeader)\<close>, with the wrap-around written out.
\<close>

definition available_space :: "Page \<Rightarrow> nat" where
  "available_space p =
     nat ((int DATA_SIZE - int (unat (free_space_offset (header p))) + int HEADER_SIZE)
          mod 2 ^ 64)"

definition can_fit :: "Page \<Rightarrow> nat \<Rightarrow> bool" where
  "can_fit p n \<longleftrightarrow> available_space p \<ge> n"

definition compute_checksum :: "Page \<Rightarrow> u32" where
  "compute_checksum p = fold (\<lambda>byte c. c XOR ucast byte) (data p) 0"

definition update_checksum :: "Page \<Rightarrow> Page" where
  "update_checksum p = p\<lparr>header := (header p)\<lparr>checksum := compute_checksum p\<rparr>\<rparr>"

definition validate_checksum :: "Page \<Rightarrow> bool" where
  "validate_checksum p \<longleftrightarrow> checksum (header p) = compute_checksum p"

section \<open>StorageEngine.hpp\<close>

text \<open>
  The engine's members, with the database file as a map from page number to the page
  stored at byte offset \<open>page_id * PAGE_SIZE\<close> (\<open>None\<close>: no page can be read there).
  The page cache is an \<open>unordered_map\<close>, whose iteration order the language leaves
  open; the model takes the order in which the pages entered the cache, which decides
  only which page \<open>evict_page\<close> drops from a full cache. The dirty set is a list without
  repetitions. Failures of the
  operating system to open or write the file are not modelled.
\<close>

record StorageEngine =
  file_pages :: "u64 \<Rightarrow> Page option"
  next_page_id :: u64
  free_list_head :: u64
  sys_tables_root :: u64
  sys_fields_root :: u64
  sys_indexes_root :: u64
  cache_size :: nat
  page_cache :: "(u64 \<times> Page) list"
  dirty_pages :: "u64 list"

definition cache_store :: "u64 \<Rightarrow> Page \<Rightarrow> (u64 \<times> Page) list \<Rightarrow> (u64 \<times> Page) list" where
  "cache_store pid page c =
     (if pid \<in> fst ` set c then map (\<lambda>(k, v). if k = pid then (k, page) else (k, v)) c
      else c @ [(pid, page)])"

definition cache_erase :: "u64 \<Rightarrow> (u64 \<times> Page) list \<Rightarrow> (u64 \<times> Page) list" where
  "cache_erase pid c = filter (\<lambda>(k, v). k \<noteq> pid) c"

definition flush_page :: "u64 \<Rightarrow> StorageEngine \<Rightarrow> StorageEngine" where
  "flush_page pid st =
     (if pid \<notin> set (dirty_pages st) then st
      else
        (case map_of (page_cache st) pid of
           Some cached \<Rightarrow>
             let page = update_checksum cached
             in st\<lparr>file_pages := (file_pages st)(pid \<mapsto> page),
                   page_cache := cache_store pid page (page_cache st),
                   dirty_pages := removeAll pid (dirty_pages st)\<rparr>
         | None \<Rightarrow> st\<lparr>dirty_pages := removeAll pid (dirty_pages st)\<rparr>))"

definition flush_one :: "u64 \<Rightarrow> StorageEngine \<Rightarrow> StorageEngine" where
  "flush_one pid st =
     (case map_of (page_cache st) pid of
        Some cached \<Rightarrow>
          let page = update_checksum cached
          in st\<lparr>file_pages := (file_pages st)(pid \<mapsto> page),
                page_cache := cache_store pid page (page_cache st)\<rparr>
      | None \<Rightarrow> st)"

definition flush_all :: "StorageEngine \<Rightarrow> StorageEngine" where
  "flush_all st =
     (if dirty_pages st = [] then st
      else (fold flush_one (dirty_pages st) st)\<lparr>dirty_pages := []\<rparr>)"

definition evict_page :: "StorageEngine \<Rightarrow> StorageEngine" where
  "evict_page st =
     (if page_cache st = [] then st
      else
        (case find (\<lambda>(k, v). k \<notin> set (dirty_pages st)) (page_cache st) of
           Some (k, v) \<Rightarrow> st\<lparr>page_cache := cache_erase k (page_cache st)\<rparr>
         | None \<Rightarrow>
             let pid = fst (hd (page_cache st));
                 st1 = flush_page pid st
             in st1\<lparr>page_cache := cache_erase pid (page_cache st1)\<rparr>))"

definition read_page :: "u64 \<Rightarrow> StorageEngine \<Rightarrow> (error + Page) \<times> StorageEngine" where
  "read_page pid st =
     (case map_of (page_cache st) pid of
        Some cached \<Rightarrow> (Inr cached, st)
      | None \<Rightarrow>
          (case file_pages st pid of
             None \<Rightarrow> (Inl (CannotReadPage pid), st)
           | Some page \<Rightarrow>
               if \<not> is_valid (header page) then (Inl (InvalidPageHeader pid), st)
               else
                 let st1 = (if length (page_cache st) \<ge> cache_size st then evict_page st else st)
                 in (Inr page, st1\<lparr>page_cache := cache_store pid page (page_cache st1)\<rparr>)))"

definition write_page :: "u64 \<Rightarrow> Page \<Rightarrow> StorageEngine \<Rightarrow> StorageEngine" where
  "write_page pid page st =
     (let st1 = st\<lparr>page_cache := cache_store pid page (page_cache st),
                   dirty_pages := List.insert pid (dirty_pages st)\<rparr>
      in if length (dirty_pages st1) > cache_size st1 div 2 then flush_all st1 else st1)"

text \<open>The five scalar writes of \<open>save_metadata\<close>, each a \<open>write_data\<close> that may throw.\<close>

definition bind_err :: "error + 'a \<Rightarrow> ('a \<Rightarrow> error + 'b) \<Rightarrow> error + 'b" where
  "bind_err m f = (case m of Inl e \<Rightarrow> Inl e | Inr a \<Rightarrow> f a)"

definition write_metadata_fields :: "StorageEngine \<Rightarrow> Page \<Rightarrow> error + Page" where
  "write_metadata_fields st metadata_page =
     bind_err (write_data 16 (le_bytes 8 (next_page_id st)) metadata_page) (\<lambda>p1.
     bind_err (write_data 24 (le_bytes 8 (free_list_head st)) p1) (\<lambda>p2.
     bind_err (write_data 32 (le_bytes 8 (sys_tables_root st)) p2) (\<lambda>p3.
     bind_err (write_data 40 (le_bytes 8 (sys_fields_root st)) p3) (\<lambda>p4.
     write_data 60 (le_bytes 8 (sys_indexes_root st)) p4))))"

definition save_metadata :: "StorageEngine \<Rightarrow> (error + unit) \<times> StorageEngine" where
  "save_metadata st =
     (case read_page 0 st of
        (Inl e, st1) \<Rightarrow> (Inl e, st1)
      | (Inr metadata_page, st1) \<Rightarrow>
          (case write_metadata_fields st1 metadata_page of
             Inl e \<Rightarrow> (Inl e, st1)
           | Inr page \<Rightarrow> (Inr (), write_page 0 page st1)))"

definition allocate_page :: "PageType \<Rightarrow> StorageEngine \<Rightarrow> (error + u64) \<times> StorageEngine" where
  "allocate_page type st =
     (if free_list_head st \<noteq> 0 then
        (let pid = free_list_head st in
         case read_page pid st of
           (Inl e, st1) \<Rightarrow> (Inl e, st1)
         | (Inr page, st1) \<Rightarrow>
             let st2 = st1\<lparr>free_list_head := PageHeader.next_page_id (header page)\<rparr>;
                 st3 = write_page pid (Page_new pid type) st2
             in (case save_metadata st3 of
                   (Inl e, st4) \<Rightarrow> (Inl e, st4)
                 | (Inr u, st4) \<Rightarrow> (Inr pid, st4)))
      else
        (let pid = next_page_id st;
             st1 = st\<lparr>next_page_id := pid + 1\<rparr>;
             st2 = write_page pid (Page_new pid type) st1
         in (case save_metadata st2 of
               (Inl e, st3) \<Rightarrow> (Inl e, st3)
             | (Inr u, st3) \<Rightarrow> (Inr pid, st3))))"

definition deallocate_page :: "u64 \<Rightarrow> StorageEngine \<Rightarrow> (error + unit) \<times> StorageEngine" where
  "deallocate_page pid st =
     (if pid = 0 then (Inl CannotDeallocateMetadataPage, st)
      else
        (case read_page pid st of
           (Inl e, st1) \<Rightarrow> (Inl e, st1)
         | (Inr page0, st1) \<Rightarrow>
             let page1 = page0\<lparr>header := (header page0)\<lparr>page_type := FREE\<rparr>\<rparr>;
                 page2 = page1\<lparr>header := (header page1)
                            \<lparr>PageHeader.next_page_id := free_list_head st1\<rparr>\<rparr>;
                 page3 = clear page2;
                 st2 = st1\<lparr>free_list_head := pid\<rparr>;
                 st3 = write_page pid page3 st2
             in save_metadata st3))"

definition set_sys_indexes_root :: "u64 \<Rightarrow> StorageEngine \<Rightarrow> (error + unit) \<times> StorageEngine" where
  "set_sys_indexes_root root st = save_metadata (st\<lparr>sys_indexes_root := root\<rparr>)"

text \<open>
  \<open>create_new_database\<close> writes page 0 of a new file; the creation timestamp
  (\<open>std::time\<close>) is the argument \<open>now\<close>.
\<close>

definition db_header :: "u8 list" where
  "db_header = map of_char ''LearnQL Database''"

definition create_new_database :: "u64 \<Rightarrow> StorageEngine \<Rightarrow> (error + unit) \<times> StorageEngine" where
  "create_new_database now st =
     (case
        bind_err (write_data 0 db_header (Page_new 0 METADATA)) (\<lambda>p0.
        bind_err (write_data 16 (le_bytes 8 (next_page_id st)) p0) (\<lambda>p1.
        bind_err (write_data 24 (le_bytes 8 (free_list_head st)) p1) (\<lambda>p2.
        bind_err (write_data 32 (le_bytes 8 (sys_tables_root st)) p2) (\<lambda>p3.
        bind_err (write_data 40 (le_bytes 8 (sys_fields_root st)) p3) (\<lambda>p4.
        bind_err (write_data 48 (le_bytes 4 (3 :: u32)) p4) (\<lambda>p5.
        bind_err (write_data 52 (le_bytes 8 now) p5) (\<lambda>p6.
        write_data 60 (le_bytes 8 (sys_indexes_root st)) p6)))))))
      of
        Inl e \<Rightarrow> (Inl e, st)
      | Inr metadata_page \<Rightarrow>
          (Inr (), st\<lparr>file_pages := (\<lambda>pid. None)(0 \<mapsto> update_checksum metadata_page)\<rparr>))"

definition read_u64 :: "nat \<Rightarrow> Page \<Rightarrow> error + u64" where
  "read_u64 offset p = bind_err (read_data offset 8 p) (\<lambda>bs. Inr (from_le_bytes bs))"

definition read_u32 :: "nat \<Rightarrow> Page \<Rightarrow> error + u32" where
  "read_u32 offset p = bind_err (read_data offset 4 p) (\<lambda>bs. Inr (from_le_bytes bs))"

definition load_metadata :: "StorageEngine \<Rightarrow> (error + unit) \<times> StorageEngine" where
  "load_metadata st =
     (case read_page 0 st of
        (Inl e, st1) \<Rightarrow> (Inl e, st1)
      | (Inr metadata_page, st1) \<Rightarrow>
          (case read_data 0 16 metadata_page of
             Inl e \<Rightarrow> (Inl e, st1)
           | Inr actual_header \<Rightarrow>
               if actual_header \<noteq> db_header then (Inl InvalidDatabaseFileFormat, st1)
               else
                 (case read_u64 16 metadata_page of
                    Inl e \<Rightarrow> (Inl e, st1)
                  | Inr v1 \<Rightarrow>
                 let st2 = st1\<lparr>next_page_id := v1\<rparr> in
                 (case read_u64 24 metadata_page of
                    Inl e \<Rightarrow> (Inl e, st2)
                  | Inr v2 \<Rightarrow>
                 let st3 = st2\<lparr>free_list_head := v2\<rparr> in
                 (case read_u64 32 metadata_page of
                    Inl e \<Rightarrow> (Inl e, st3)
                  | Inr v3 \<Rightarrow>
                 let st4 = st3\<lparr>sys_tables_root := v3\<rparr> in
                 (case read_u64 40 metadata_page of
                    Inl e \<Rightarrow> (Inl e, st4)
                  | Inr v4 \<Rightarrow>
                 let st5 = st4\<lparr>sys_fields_root := v4\<rparr> in
                 (case read_u32 48 metadata_page of
                    Inl e \<Rightarrow> (Inl e, st5)
                  | Inr ver \<Rightarrow>
                      if ver = 2 then (Inr (), st5\<lparr>sys_indexes_root := 0\<rparr>)
                      else if ver = 3 then
                        (case read_u64 60 metadata_page of
                           Inl e \<Rightarrow> (Inl e, st5)
                         | Inr v5 \<Rightarrow> (Inr (), st5\<lparr>sys_indexes_root := v5\<rparr>))
                      else (Inl (IncompatibleDatabaseVersion ver), st5))))))))"

text \<open>
  The constructor: \<open>existing\<close> is the content of the file at \<open>file_path\<close> when it
  exists. A constructor that throws leaves no engine behind.
\<close>

definition StorageEngine_new ::
  "(u64 \<Rightarrow> Page option) option \<Rightarrow> nat \<Rightarrow> u64 \<Rightarrow> error + StorageEngine" where
  "StorageEngine_new existing csize now =
     (let st0 = \<lparr>file_pages = (case existing of Some f \<Rightarrow> f | None \<Rightarrow> (\<lambda>pid. None)),
                 next_page_id = 1, free_list_head = 0, sys_tables_root = 0,
                 sys_fields_root = 0, sys_indexes_root = 0, cache_size = csize,
                 page_cache = [], dirty_pages = []\<rparr>
      in case (if existing \<noteq> None then load_metadata st0 else create_new_database now st0) of
           (Inl e, st1) \<Rightarrow> Inl e
         | (Inr u, st1) \<Rightarrow> Inr st1)"

section \<open>RecordId.hpp\<close>

record RecordId =
  page_id :: u64
  slot :: u32

definition RecordId_is_valid :: "RecordId \<Rightarrow> bool" where
  "RecordId_is_valid rid \<longleftrightarrow> RecordId.page_id rid \<noteq> 0"

section \<open>State and exceptions\<close>

text \<open>
  A member function that mutates its object and may throw is a function from the state
  before the call to the outcome (the exception or the returned value) and the state
  at that point.
\<close>

type_synonym ('a, 's) sx = "'s \<Rightarrow> (error + 'a) \<times> 's"

definition returnS :: "'a \<Rightarrow> ('a, 's) sx" where
  "returnS a s = (Inr a, s)"

definition throwS :: "error \<Rightarrow> ('a, 's) sx" where
  "throwS e s = (Inl e, s)"

definition bindS :: "('a, 's) sx \<Rightarrow> ('a \<Rightarrow> ('b, 's) sx) \<Rightarrow> ('b, 's) sx" where
  "bindS m f s = (case m s of (Inl e, s1) \<Rightarrow> (Inl e, s1) | (Inr a, s1) \<Rightarrow> f a s1)"

section \<open>PersistentBTreeIndex.hpp\<close>

definition ORDER :: nat where
  "ORDER = 4"

definition MIN_KEYS :: nat where
  "MIN_KEYS = ORDER div 2 - 1"

definition MAX_KEYS :: nat where
  "MAX_KEYS = ORDER - 1"

text \<open>The node structure; the member \<open>values\<close> is the field \<open>vals\<close>.\<close>

record ('k, 'v) Node =
  page_id :: u64
  keys :: "'k list"
  vals :: "'v list"
  children_ids :: "u64 list"
  is_leaf :: bool
  next_page_id :: u64
  prev_page_id :: u64

definition Node_new :: "u64 \<Rightarrow> ('k, 'v) Node" where
  "Node_new pid =
     \<lparr>page_id = pid, keys = [], vals = [], children_ids = [], is_leaf = True,
      next_page_id = 0, prev_page_id = 0\<rparr>"

text \<open>
  \<open>std::lower_bound\<close> over the keys of a node: the first position whose key is not
  less than \<open>key\<close> (the keys of a node are in ascending order).
\<close>

definition find_insert_pos :: "('k::linorder, 'v) Node \<Rightarrow> 'k \<Rightarrow> nat" where
  "find_insert_pos node key = length (takeWhile (\<lambda>k. k < key) (keys node))"

definition is_full :: "('k, 'v) Node \<Rightarrow> bool" where
  "is_full node \<longleftrightarrow> length (keys node) \<ge> MAX_KEYS"

definition has_min_keys :: "('k, 'v) Node \<Rightarrow> bool" where
  "has_min_keys node \<longleftrightarrow> length (keys node) \<ge> MIN_KEYS"

text \<open>
  The index. Its nodes live in the node cache and, once written back, in INDEX pages
  of the storage engine; \<open>node_cache\<close> holds the node last saved under each page id,
  wherever it currently lives (write-back, eviction and the byte layout of a node are
  not modelled). Loading a page id that holds no node is the failure \<open>IndexFailure\<close>.
  The storage engine is shared with the table that owns the index, so every operation
  works on the pair of the index and the engine.
\<close>

record ('k, 'v) PersistentBTreeIndex =
  root_page_id :: u64
  tree_size :: u64
  node_cache :: "(u64 \<times> ('k, 'v) Node) list"

type_synonym ('k, 'v) index_state = "('k, 'v) PersistentBTreeIndex \<times> StorageEngine"

definition node_store ::
  "u64 \<Rightarrow> ('k, 'v) Node \<Rightarrow> (u64 \<times> ('k, 'v) Node) list \<Rightarrow> (u64 \<times> ('k, 'v) Node) list" where
  "node_store pid node c =
     (if pid \<in> fst ` set c then map (\<lambda>(k, v). if k = pid then (k, node) else (k, v)) c
      else c @ [(pid, node)])"

definition on_storage :: "('a, StorageEngine) sx \<Rightarrow> ('a, ('k, 'v) index_state) sx" where
  "on_storage m s = (case m (snd s) of (r, st1) \<Rightarrow> (r, (fst s, st1)))"

definition save_node :: "('k, 'v) Node \<Rightarrow> (unit, ('k, 'v) index_state) sx" where
  "save_node node s =
     (Inr (), ((fst s)\<lparr>node_cache := node_store (Node.page_id node) node (node_cache (fst s))\<rparr>,
               snd s))"

definition node_at :: "('k, 'v) PersistentBTreeIndex \<Rightarrow> u64 \<Rightarrow> error + ('k, 'v) Node" where
  "node_at t pid =
     (case map_of (node_cache t) pid of
        Some node \<Rightarrow> Inr node
      | None \<Rightarrow> Inl IndexFailure)"

definition load_node :: "u64 \<Rightarrow> (('k, 'v) Node, ('k, 'v) index_state) sx" where
  "load_node pid s = (node_at (fst s) pid, s)"

definition allocate_node :: "bool \<Rightarrow> (u64, ('k, 'v) index_state) sx" where
  "allocate_node leaf =
     bindS (on_storage (allocate_page INDEX)) (\<lambda>pid.
     bindS (save_node ((Node_new pid)\<lparr>is_leaf := leaf\<rparr>)) (\<lambda>u.
     returnS pid))"

definition deallocate_node :: "u64 \<Rightarrow> (unit, ('k, 'v) index_state) sx" where
  "deallocate_node pid s =
     on_storage (deallocate_page pid)
       ((fst s)\<lparr>node_cache := filter (\<lambda>(k, v). k \<noteq> pid) (node_cache (fst s))\<rparr>, snd s)"

text \<open>
  \<open>children_ids[i]\<close> and \<open>keys[i]\<close> on a vector: an index out of range is undefined
  behaviour in C++ and the failure \<open>IndexFailure\<close> here.
\<close>

definition at_index :: "'a list \<Rightarrow> nat \<Rightarrow> ('a, 's) sx" where
  "at_index xs i = (if i < length xs then returnS (xs ! i) else throwS IndexFailure)"

text \<open>\<open>v.insert(v.begin() + i, x)\<close>.\<close>

definition insert_at :: "nat \<Rightarrow> 'a \<Rightarrow> 'a list \<Rightarrow> 'a list" where
  "insert_at i x xs = take i xs @ x # drop i xs"

text \<open>\<open>v.erase(v.begin() + i)\<close>.\<close>

definition erase_at :: "nat \<Rightarrow> 'a list \<Rightarrow> 'a list" where
  "erase_at i xs = take i xs @ drop (Suc i) xs"

definition split_child ::
  "('k, 'v) Node \<Rightarrow> nat \<Rightarrow> (('k, 'v) Node, ('k, 'v) index_state) sx" where
  "split_child parent index =
     bindS (at_index (children_ids parent) index) (\<lambda>child_id.
     bindS (load_node child_id) (\<lambda>full_child.
     bindS (allocate_node (is_leaf full_child)) (\<lambda>new_node_id.
     bindS (load_node new_node_id) (\<lambda>new_node.
     let mid = MAX_KEYS div 2 in
     if is_leaf full_child then
       (let new_node1 = new_node\<lparr>keys := drop mid (keys full_child),
                                  vals := drop mid (vals full_child),
                                  next_page_id := Node.next_page_id full_child,
                                  prev_page_id := Node.page_id full_child\<rparr>;
            full_child1 = full_child\<lparr>next_page_id := new_node_id\<rparr>
        in
        bindS (if Node.next_page_id new_node1 \<noteq> 0 then
                 bindS (load_node (Node.next_page_id new_node1)) (\<lambda>next_leaf.
                 save_node (next_leaf\<lparr>prev_page_id := new_node_id\<rparr>))
               else returnS ()) (\<lambda>u.
        bindS (at_index (keys new_node1) 0) (\<lambda>separator.
        let parent1 = parent\<lparr>keys := insert_at index separator (keys parent),
                              children_ids :=
                                insert_at (index + 1) new_node_id (children_ids parent)\<rparr>;
            full_child2 = full_child1\<lparr>keys := take mid (keys full_child1),
                                      vals := take mid (vals full_child1)\<rparr>
        in
        bindS (save_node full_child2) (\<lambda>u.
        bindS (save_node new_node1) (\<lambda>u.
        bindS (save_node parent1) (\<lambda>u.
        returnS parent1))))))
     else
       (let new_node1 = new_node\<lparr>keys := drop (mid + 1) (keys full_child),
                                  children_ids := drop (mid + 1) (children_ids full_child)\<rparr>
        in
        bindS (at_index (keys full_child) mid) (\<lambda>separator.
        let parent1 = parent\<lparr>keys := insert_at index separator (keys parent),
                              children_ids :=
                                insert_at (index + 1) new_node_id (children_ids parent)\<rparr>;
            full_child1 = full_child\<lparr>keys := take mid (keys full_child),
                                     children_ids := take (mid + 1) (children_ids full_child)\<rparr>
        in
        bindS (save_node full_child1) (\<lambda>u.
        bindS (save_node new_node1) (\<lambda>u.
        bindS (save_node parent1) (\<lambda>u.
        returnS parent1)))))))))"

text \<open>
  The recursive descents and the walks along the leaf chain take a bound on their
  length as first argument. The public operations pass one more than the number of
  nodes of the index, which no path through distinct nodes exceeds; a descent or a walk
  that uses it up runs through a cycle and never returns in C++. The public operations
  of the class carry the prefix \<open>BTree\<close>.
\<close>

fun insert_non_full ::
  "nat \<Rightarrow> ('k::linorder, 'v) Node \<Rightarrow> 'k \<Rightarrow> 'v \<Rightarrow> (bool, ('k, 'v) index_state) sx" where
  "insert_non_full 0 node key val = throwS IndexFailure"
| "insert_non_full (Suc fuel) node key val =
     (let i = find_insert_pos node key in
      if is_leaf node then
        (if i < length (keys node) \<and> keys node ! i = key then returnS False
         else
           bindS (save_node (node\<lparr>keys := insert_at i key (keys node),
                                  vals := insert_at i val (vals node)\<rparr>)) (\<lambda>u.
           returnS True))
      else
        bindS (at_index (children_ids node) i) (\<lambda>child_id.
        bindS (load_node child_id) (\<lambda>child.
        if is_full child then
          bindS (split_child node i) (\<lambda>node1.
          bindS (at_index (keys node1) i) (\<lambda>separator.
          let i1 = (if key \<ge> separator then i + 1 else i) in
          bindS (at_index (children_ids node1) i1) (\<lambda>child_id1.
          bindS (load_node child_id1) (\<lambda>child1.
          insert_non_full fuel child1 key val))))
        else insert_non_full fuel child key val)))"

definition depth_bound :: "('k, 'v) index_state \<Rightarrow> nat" where
  "depth_bound s = Suc (length (node_cache (fst s)))"

definition set_root :: "u64 \<Rightarrow> (unit, ('k, 'v) index_state) sx" where
  "set_root pid s = (Inr (), ((fst s)\<lparr>root_page_id := pid\<rparr>, snd s))"

definition set_size :: "u64 \<Rightarrow> (unit, ('k, 'v) index_state) sx" where
  "set_size n s = (Inr (), ((fst s)\<lparr>tree_size := n\<rparr>, snd s))"

definition BTree_insert :: "'k::linorder \<Rightarrow> 'v \<Rightarrow> (bool, ('k, 'v) index_state) sx" where
  "BTree_insert key val s0 =
     bindS (load_node (root_page_id (fst s0))) (\<lambda>root.
     bindS (if is_full root then
              bindS (allocate_node False) (\<lambda>new_root_id.
              bindS (load_node new_root_id) (\<lambda>new_root.
              bindS (split_child
                       (new_root\<lparr>children_ids :=
                                    children_ids new_root @ [root_page_id (fst s0)]\<rparr>) 0)
                 (\<lambda>new_root1.
              bindS (save_node new_root1) (\<lambda>u.
              set_root new_root_id))))
            else returnS ()) (\<lambda>u s1.
     bindS (load_node (root_page_id (fst s1))) (\<lambda>root1.
     bindS (insert_non_full (depth_bound s1) root1 key val) (\<lambda>inserted s2.
     bindS (if inserted then set_size (tree_size (fst s2) + 1) else returnS ()) (\<lambda>u.
     returnS inserted) s2)) s1)) s0"

fun search ::
  "nat \<Rightarrow> ('k::linorder, 'v) PersistentBTreeIndex \<Rightarrow> u64 \<Rightarrow> 'k \<Rightarrow> error + 'v option" where
  "search 0 t node_id key = (if node_id = 0 then Inr None else Inl IndexFailure)"
| "search (Suc fuel) t node_id key =
     (if node_id = 0 then Inr None
      else
        (case node_at t node_id of
           Inl e \<Rightarrow> Inl e
         | Inr node \<Rightarrow>
             if is_leaf node then
               (let i = length (takeWhile (\<lambda>k. key > k) (keys node)) in
                if i < length (keys node) \<and> key = keys node ! i then
                  (if i < length (vals node) then Inr (Some (vals node ! i))
                   else Inl IndexFailure)
                else Inr None)
             else
               (let i = length (takeWhile (\<lambda>k. key \<ge> k) (keys node)) in
                if i < length (children_ids node)
                then search fuel t (children_ids node ! i) key
                else Inl IndexFailure)))"

definition BTree_find :: "('k::linorder, 'v) PersistentBTreeIndex \<Rightarrow> 'k \<Rightarrow> error + 'v option" where
  "BTree_find t key = search (Suc (length (node_cache t))) t (root_page_id t) key"

definition BTree_contains :: "('k::linorder, 'v) PersistentBTreeIndex \<Rightarrow> 'k \<Rightarrow> error + bool" where
  "BTree_contains t key = bind_err (BTree_find t key) (\<lambda>r. Inr (r \<noteq> None))"

fun remove_from_node ::
  "nat \<Rightarrow> ('k::linorder, 'v) Node \<Rightarrow> 'k \<Rightarrow> (bool \<times> ('k, 'v) Node, ('k, 'v) index_state) sx" where
  "remove_from_node 0 node key = throwS IndexFailure"
| "remove_from_node (Suc fuel) node key =
     (if is_leaf node then
        (let i = length (takeWhile (\<lambda>k. key > k) (keys node)) in
         if i < length (keys node) \<and> key = keys node ! i then
           (let node1 = node\<lparr>keys := erase_at i (keys node), vals := erase_at i (vals node)\<rparr> in
            bindS (save_node node1) (\<lambda>u.
            returnS (True, node1)))
         else returnS (False, node))
      else
        (let i = length (takeWhile (\<lambda>k. key \<ge> k) (keys node)) in
         if i < length (children_ids node) then
           bindS (load_node (children_ids node ! i)) (\<lambda>child.
           bindS (remove_from_node fuel child key) (\<lambda>r.
           bindS (save_node node) (\<lambda>u.
           returnS (fst r, node))))
         else returnS (False, node)))"

definition BTree_remove :: "'k::linorder \<Rightarrow> (bool, ('k, 'v) index_state) sx" where
  "BTree_remove key s0 =
     bindS (load_node (root_page_id (fst s0))) (\<lambda>root.
     bindS (remove_from_node (depth_bound s0) root key) (\<lambda>r.
     let removed = fst r; root1 = snd r in
     bindS (if keys root1 = [] \<and> \<not> is_leaf root1 \<and> children_ids root1 \<noteq> [] then
              bindS (set_root (hd (children_ids root1))) (\<lambda>u.
              deallocate_node (root_page_id (fst s0)))
            else save_node root1) (\<lambda>u s1.
     bindS (if removed then set_size (tree_size (fst s1) - 1) else returnS ()) (\<lambda>u.
     returnS removed) s1))) s0"

fun find_leaf_for_key ::
  "nat \<Rightarrow> ('k::linorder, 'v) PersistentBTreeIndex \<Rightarrow> u64 \<Rightarrow> 'k \<Rightarrow> error + u64" where
  "find_leaf_for_key 0 t node_id key = (if node_id = 0 then Inr 0 else Inl IndexFailure)"
| "find_leaf_for_key (Suc fuel) t node_id key =
     (if node_id = 0 then Inr 0
      else
        (case node_at t node_id of
           Inl e \<Rightarrow> Inl e
         | Inr node \<Rightarrow>
             if is_leaf node then Inr node_id
             else
               (let i = length (takeWhile (\<lambda>k. key \<ge> k) (keys node)) in
                if i < length (children_ids node)
                then find_leaf_for_key fuel t (children_ids node ! i) key
                else Inl IndexFailure)))"

text \<open>
  The inner loop of \<open>range_query_helper\<close> over one leaf: the flag says that a key above
  \<open>max_key\<close> was met and the whole query returns.
\<close>

fun collect_range :: "'k::linorder \<Rightarrow> 'k \<Rightarrow> ('k \<times> 'v) list \<Rightarrow> 'v list \<Rightarrow> 'v list \<times> bool" where
  "collect_range min_key max_key [] results = (results, False)"
| "collect_range min_key max_key ((k, v) # kvs) results =
     (if k < min_key then collect_range min_key max_key kvs results
      else if k > max_key then (results, True)
      else collect_range min_key max_key kvs (results @ [v]))"

fun range_walk ::
  "nat \<Rightarrow> ('k::linorder, 'v) PersistentBTreeIndex \<Rightarrow> u64 \<Rightarrow> 'k \<Rightarrow> 'k \<Rightarrow> 'v list \<Rightarrow> error + 'v list"
  where
  "range_walk 0 t leaf_id min_key max_key results =
     (if leaf_id = 0 then Inr results else Inl IndexFailure)"
| "range_walk (Suc fuel) t leaf_id min_key max_key results =
     (if leaf_id = 0 then Inr results
      else
        (case node_at t leaf_id of
           Inl e \<Rightarrow> Inl e
         | Inr leaf \<Rightarrow>
             if length (vals leaf) < length (keys leaf) then Inl IndexFailure
             else
               (case collect_range min_key max_key (zip (keys leaf) (vals leaf)) results of
                  (results1, True) \<Rightarrow> Inr results1
                | (results1, False) \<Rightarrow>
                    range_walk fuel t (Node.next_page_id leaf) min_key max_key results1)))"

definition range_query_helper ::
  "('k::linorder, 'v) PersistentBTreeIndex \<Rightarrow> u64 \<Rightarrow> 'k \<Rightarrow> 'k \<Rightarrow> 'v list \<Rightarrow> error + 'v list"
  where
  "range_query_helper t node_id min_key max_key results =
     (if node_id = 0 then Inr results
      else
        (case find_leaf_for_key (Suc (length (node_cache t))) t node_id min_key of
           Inl e \<Rightarrow> Inl e
         | Inr leaf_id \<Rightarrow>
             if leaf_id = 0 then Inr results
             else range_walk (Suc (length (node_cache t))) t leaf_id min_key max_key results))"

definition BTree_range_query ::
  "('k::linorder, 'v) PersistentBTreeIndex \<Rightarrow> 'k \<Rightarrow> 'k \<Rightarrow> error + 'v list" where
  "BTree_range_query t min_key max_key = range_query_helper t (root_page_id t) min_key max_key []"

fun find_leftmost_leaf :: "nat \<Rightarrow> ('k, 'v) PersistentBTreeIndex \<Rightarrow> u64 \<Rightarrow> error + u64" where
  "find_leftmost_leaf 0 t node_id = (if node_id = 0 then Inr 0 else Inl IndexFailure)"
| "find_leftmost_leaf (Suc fuel) t node_id =
     (if node_id = 0 then Inr 0
      else
        (case node_at t node_id of
           Inl e \<Rightarrow> Inl e
         | Inr node \<Rightarrow>
             if is_leaf node then Inr node_id
             else if 0 < length (children_ids node)
             then find_leftmost_leaf fuel t (children_ids node ! 0)
             else Inl IndexFailure))"

fun leaf_walk ::
  "nat \<Rightarrow> ('k, 'v) PersistentBTreeIndex \<Rightarrow> u64 \<Rightarrow> ('k \<times> 'v) list \<Rightarrow> error + ('k \<times> 'v) list" where
  "leaf_walk 0 t leaf_id results = (if leaf_id = 0 then Inr results else Inl IndexFailure)"
| "leaf_walk (Suc fuel) t leaf_id results =
     (if leaf_id = 0 then Inr results
      else
        (case node_at t leaf_id of
           Inl e \<Rightarrow> Inl e
         | Inr leaf \<Rightarrow>
             if length (vals leaf) < length (keys leaf) then Inl IndexFailure
             else leaf_walk fuel t (Node.next_page_id leaf) (results @ zip (keys leaf) (vals leaf))))"

definition traverse ::
  "('k, 'v) PersistentBTreeIndex \<Rightarrow> u64 \<Rightarrow> ('k \<times> 'v) list \<Rightarrow> error + ('k \<times> 'v) list" where
  "traverse t node_id results =
     (if node_id = 0 then Inr results
      else
        (case find_leftmost_leaf (Suc (length (node_cache t))) t node_id of
           Inl e \<Rightarrow> Inl e
         | Inr leaf_id \<Rightarrow>
             if leaf_id = 0 then Inr results
             else leaf_walk (Suc (length (node_cache t))) t leaf_id results))"

definition BTree_get_all :: "('k, 'v) PersistentBTreeIndex \<Rightarrow> error + ('k \<times> 'v) list" where
  "BTree_get_all t = traverse t (root_page_id t) []"

definition BTree_size :: "('k, 'v) PersistentBTreeIndex \<Rightarrow> u64" where
  "BTree_size t = tree_size t"

definition count_entries :: "('k, 'v) PersistentBTreeIndex \<Rightarrow> u64 \<Rightarrow> error + u64" where
  "count_entries t node_id =
     bind_err (traverse t node_id []) (\<lambda>entries. Inr (of_nat (length entries)))"

text \<open>
  The constructor. With \<open>root = 0\<close> it allocates an empty leaf as root; otherwise
  \<open>existing\<close> are the nodes stored in the INDEX pages of the index being opened.
\<close>

definition BTree_new ::
  "(u64 \<times> ('k, 'v) Node) list \<Rightarrow> u64 \<Rightarrow> StorageEngine \<Rightarrow> (error + unit) \<times> ('k, 'v) index_state"
  where
  "BTree_new existing root st =
     (if root = 0 then
        bindS (allocate_node True) set_root
          (\<lparr>root_page_id = 0, tree_size = 0, node_cache = []\<rparr>, st)
      else
        (let t = \<lparr>root_page_id = root, tree_size = 0, node_cache = existing\<rparr> in
         case count_entries t root of
           Inl e \<Rightarrow> (Inl e, (t, st))
         | Inr n \<Rightarrow> (Inr (), (t\<lparr>tree_size := n\<rparr>, st))))"

section \<open>BatchIterator.hpp\<close>

text \<open>
  The cursor. Its \<open>load_node_fn\<close> is the index it was created from, passed to every
  operation; the batch size is the first argument of \<open>next_batch\<close>.
\<close>

record BatchIterator =
  current_leaf_id :: u64
  current_key_index :: nat
  exhausted :: bool
  root_page_id :: u64

fun find_leftmost_leaf_it :: "nat \<Rightarrow> ('k, 'v) PersistentBTreeIndex \<Rightarrow> u64 \<Rightarrow> error + u64" where
  "find_leftmost_leaf_it 0 t node_id = (if node_id = 0 then Inr 0 else Inl IndexFailure)"
| "find_leftmost_leaf_it (Suc fuel) t node_id =
     (if node_id = 0 then Inr 0
      else
        (case node_at t node_id of
           Inl e \<Rightarrow> Inl e
         | Inr node \<Rightarrow>
             if is_leaf node then Inr node_id
             else if children_ids node \<noteq> []
             then find_leftmost_leaf_it fuel t (hd (children_ids node))
             else Inr 0))"

definition BatchIterator_new ::
  "('k, 'v) PersistentBTreeIndex \<Rightarrow> u64 \<Rightarrow> error + BatchIterator" where
  "BatchIterator_new t root =
     (let it = \<lparr>current_leaf_id = 0, current_key_index = 0, exhausted = (root = 0),
                root_page_id = root\<rparr>
      in if \<not> exhausted it then
           bind_err (find_leftmost_leaf_it (Suc (length (node_cache t))) t root) (\<lambda>leaf_id.
           Inr (it\<lparr>current_leaf_id := leaf_id, exhausted := (leaf_id = 0)\<rparr>))
         else Inr it)"

definition create_batch_iterator :: "('k, 'v) PersistentBTreeIndex \<Rightarrow> error + BatchIterator" where
  "create_batch_iterator t = BatchIterator_new t (PersistentBTreeIndex.root_page_id t)"

definition has_more :: "BatchIterator \<Rightarrow> bool" where
  "has_more it \<longleftrightarrow> \<not> exhausted it \<and> current_leaf_id it \<noteq> 0"

text \<open>
  One round of the \<open>while\<close> loop of \<open>next_batch\<close>: the inner \<open>for\<close> loop appends the
  entries of the current leaf from \<open>current_key_index\<close> on, as long as the batch has room.
\<close>

fun next_batch_loop ::
  "nat \<Rightarrow> nat \<Rightarrow> ('k, 'v) PersistentBTreeIndex \<Rightarrow> ('k \<times> 'v) list \<Rightarrow>
   (('k \<times> 'v) list, BatchIterator) sx" where
  "next_batch_loop 0 batch_size t batch it =
     (if has_more it \<and> length batch < batch_size then (Inl IndexFailure, it)
      else (Inr batch, it))"
| "next_batch_loop (Suc fuel) batch_size t batch it =
     (if has_more it \<and> length batch < batch_size then
        (case node_at t (current_leaf_id it) of
           Inl e \<Rightarrow> (Inl e, it)
         | Inr node \<Rightarrow>
             if length (vals node) < length (keys node) then (Inl IndexFailure, it)
             else
               (let fetched = take (batch_size - length batch)
                                (drop (current_key_index it) (zip (keys node) (vals node)));
                    it1 = it\<lparr>current_key_index := current_key_index it + length fetched\<rparr>;
                    it2 = (if current_key_index it1 \<ge> length (keys node) then
                             it1\<lparr>current_leaf_id := Node.next_page_id node,
                                 current_key_index := 0,
                                 exhausted := (if Node.next_page_id node = 0 then True
                                               else exhausted it1)\<rparr>
                           else it1)
                in next_batch_loop fuel batch_size t (batch @ fetched) it2))
      else (Inr batch, it))"

text \<open>
  Between two rounds that add an entry the loop moves along at most every leaf once,
  so \<open>(batch_size + 1) * (number of nodes + 1)\<close> rounds bound every call that returns.
\<close>

definition next_batch ::
  "nat \<Rightarrow> ('k, 'v) PersistentBTreeIndex \<Rightarrow> (('k \<times> 'v) list, BatchIterator) sx" where
  "next_batch batch_size t it =
     next_batch_loop ((batch_size + 1) * (length (node_cache t) + 1)) batch_size t [] it"

section \<open>PersistentSecondaryIndex.hpp\<close>

text \<open>
  The unique secondary index on one field of the record type \<open>'t\<close>. Its operations
  carry the prefix \<open>SecondaryIndex\<close> and work on the pair of the index and the shared
  storage engine.
\<close>

record ('t, 'f) PersistentSecondaryIndex =
  field_name :: string
  getter :: "'t \<Rightarrow> 'f"
  index :: "('f, RecordId) PersistentBTreeIndex"

type_synonym ('t, 'f) unique_state = "('t, 'f) PersistentSecondaryIndex \<times> StorageEngine"

definition on_unique_index ::
  "('a, ('f, RecordId) index_state) sx \<Rightarrow> ('a, ('t, 'f) unique_state) sx" where
  "on_unique_index m s =
     (case m (PersistentSecondaryIndex.index (fst s), snd s) of
        (r, s1) \<Rightarrow> (r, ((fst s)\<lparr>PersistentSecondaryIndex.index := fst s1\<rparr>, snd s1)))"

definition SecondaryIndex_insert ::
  "'t \<Rightarrow> RecordId \<Rightarrow> (bool, ('t, 'f::linorder) unique_state) sx" where
  "SecondaryIndex_insert record rid s =
     (let field_value = PersistentSecondaryIndex.getter (fst s) record
      in on_unique_index (BTree_insert field_value rid) s)"

definition SecondaryIndex_find ::
  "('t, 'f::linorder) PersistentSecondaryIndex \<Rightarrow> 'f \<Rightarrow> error + RecordId option" where
  "SecondaryIndex_find idx v = BTree_find (PersistentSecondaryIndex.index idx) v"

definition SecondaryIndex_remove :: "'t \<Rightarrow> (bool, ('t, 'f::linorder) unique_state) sx" where
  "SecondaryIndex_remove record s =
     (let field_value = PersistentSecondaryIndex.getter (fst s) record
      in on_unique_index (BTree_remove field_value) s)"

definition SecondaryIndex_update ::
  "'t \<Rightarrow> 't \<Rightarrow> RecordId \<Rightarrow> (bool, ('t, 'f::linorder) unique_state) sx" where
  "SecondaryIndex_update old_record new_record rid s =
     (let old_value = PersistentSecondaryIndex.getter (fst s) old_record;
          new_value = PersistentSecondaryIndex.getter (fst s) new_record
      in if old_value = new_value then returnS True s
         else
           bindS (on_unique_index (BTree_remove old_value)) (\<lambda>removed.
           if \<not> removed then returnS False
           else on_unique_index (BTree_insert new_value rid)) s)"

definition SecondaryIndex_range_query ::
  "('t, 'f::linorder) PersistentSecondaryIndex \<Rightarrow> 'f \<Rightarrow> 'f \<Rightarrow> error + RecordId list" where
  "SecondaryIndex_range_query idx min_value max_value =
     BTree_range_query (PersistentSecondaryIndex.index idx) min_value max_value"

section \<open>PersistentMultiValueSecondaryIndex.hpp\<close>

text \<open>
  The composite key with the order of its \<open>operator<\<close>: by field value first, by page
  id among equal field values; \<open>a <= b\<close> is \<open>!(b < a)\<close>.
\<close>

datatype 'f CompositeKey = CompositeKey (field_value: 'f) (page_id: u64)

instantiation CompositeKey :: (linorder) linorder
begin

definition less_CompositeKey :: "'a CompositeKey \<Rightarrow> 'a CompositeKey \<Rightarrow> bool" where
  "less_CompositeKey a b \<longleftrightarrow>
     field_value a < field_value b
     \<or> (\<not> field_value b < field_value a \<and> CompositeKey.page_id a < CompositeKey.page_id b)"

definition less_eq_CompositeKey :: "'a CompositeKey \<Rightarrow> 'a CompositeKey \<Rightarrow> bool" where
  "less_eq_CompositeKey a b \<longleftrightarrow> \<not> b < a"

instance
proof
  fix x y z :: "'a CompositeKey"
  show "x < y \<longleftrightarrow> x \<le> y \<and> \<not> y \<le> x"
    by (auto simp add: less_eq_CompositeKey_def less_CompositeKey_def)
  show "x \<le> x"
    by (simp add: less_eq_CompositeKey_def less_CompositeKey_def)
  show "x \<le> y \<Longrightarrow> y \<le> z \<Longrightarrow> x \<le> z"
    by (auto simp add: less_eq_CompositeKey_def less_CompositeKey_def)
  show "x \<le> y \<Longrightarrow> y \<le> x \<Longrightarrow> x = y"
    by (cases x; cases y) (auto simp add: less_eq_CompositeKey_def less_CompositeKey_def)
  show "x \<le> y \<or> y \<le> x"
    by (auto simp add: less_eq_CompositeKey_def less_CompositeKey_def)
qed

end

text \<open>
  The multi-value index; its operations carry the prefix \<open>MultiValue\<close>. The largest
  \<open>uint64_t\<close> is the word \<open>- 1\<close>.
\<close>

record ('t, 'f) PersistentMultiValueSecondaryIndex =
  field_name :: string
  getter :: "'t \<Rightarrow> 'f"
  index :: "('f CompositeKey, RecordId) PersistentBTreeIndex"

type_synonym ('t, 'f) multi_state = "('t, 'f) PersistentMultiValueSecondaryIndex \<times> StorageEngine"

definition on_multi_index ::
  "('a, ('f CompositeKey, RecordId) index_state) sx \<Rightarrow> ('a, ('t, 'f) multi_state) sx" where
  "on_multi_index m s =
     (case m (PersistentMultiValueSecondaryIndex.index (fst s), snd s) of
        (r, s1) \<Rightarrow> (r, ((fst s)\<lparr>PersistentMultiValueSecondaryIndex.index := fst s1\<rparr>, snd s1)))"

definition MultiValue_insert ::
  "'t \<Rightarrow> RecordId \<Rightarrow> (bool, ('t, 'f::linorder) multi_state) sx" where
  "MultiValue_insert record rid s =
     (let field_value = PersistentMultiValueSecondaryIndex.getter (fst s) record;
          key = CompositeKey field_value (RecordId.page_id rid)
      in on_multi_index (BTree_insert key rid) s)"

definition MultiValue_find ::
  "('t, 'f::linorder) PersistentMultiValueSecondaryIndex \<Rightarrow> 'f \<Rightarrow> error + RecordId list" where
  "MultiValue_find idx v =
     (let min_key = CompositeKey v 0;
          max_key = CompositeKey v (- 1)
      in BTree_range_query (PersistentMultiValueSecondaryIndex.index idx) min_key max_key)"

definition MultiValue_contains ::
  "('t, 'f::linorder) PersistentMultiValueSecondaryIndex \<Rightarrow> 'f \<Rightarrow> error + bool" where
  "MultiValue_contains idx v = bind_err (MultiValue_find idx v) (\<lambda>results. Inr (results \<noteq> []))"

definition MultiValue_count ::
  "('t, 'f::linorder) PersistentMultiValueSecondaryIndex \<Rightarrow> 'f \<Rightarrow> error + nat" where
  "MultiValue_count idx v = bind_err (MultiValue_find idx v) (\<lambda>results. Inr (length results))"

definition MultiValue_remove ::
  "'t \<Rightarrow> RecordId \<Rightarrow> (bool, ('t, 'f::linorder) multi_state) sx" where
  "MultiValue_remove record rid s =
     (let field_value = PersistentMultiValueSecondaryIndex.getter (fst s) record;
          key = CompositeKey field_value (RecordId.page_id rid)
      in on_multi_index (BTree_remove key) s)"

definition MultiValue_update ::
  "'t \<Rightarrow> 't \<Rightarrow> RecordId \<Rightarrow> (bool, ('t, 'f::linorder) multi_state) sx" where
  "MultiValue_update old_record new_record rid s =
     (let old_value = PersistentMultiValueSecondaryIndex.getter (fst s) old_record;
          new_value = PersistentMultiValueSecondaryIndex.getter (fst s) new_record
      in if old_value = new_value then returnS True s
         else
           bindS (on_multi_index (BTree_remove (CompositeKey old_value (RecordId.page_id rid))))
             (\<lambda>removed.
           if \<not> removed then returnS False
           else on_multi_index (BTree_insert (CompositeKey new_value (RecordId.page_id rid)) rid))
             s)"

section \<open>Table.hpp\<close>

text \<open>
  What the table asks of its record type \<open>'t\<close> (the concept \<open>Queryable\<close>): the
  primary key, and the codec behind \<open>writer.write(record)\<close> and
  \<open>reader.read_custom<T>()\<close>; the reader is given the whole payload of the page.
\<close>

record ('t, 'k) Queryable =
  get_primary_key :: "'t \<Rightarrow> 'k"
  serialize :: "'t \<Rightarrow> u8 list"
  deserialize :: "u8 list \<Rightarrow> error + 't"

text \<open>
  \<open>SecondaryIndexWrapper\<close> holds a unique or a multi-value index. Its three
  operations drop the result of the index operation they call. In the model all
  secondary indexes of a table have the same field type.
\<close>

datatype ('t, 'f) SecondaryIndexWrapper =
    UniqueIndex "('t, 'f) PersistentSecondaryIndex"
  | MultiIndex "('t, 'f) PersistentMultiValueSecondaryIndex"

type_synonym ('t, 'f) wrapper_state = "('t, 'f) SecondaryIndexWrapper \<times> StorageEngine"

definition wrap_unique ::
  "(bool, ('t, 'f) unique_state) sx \<Rightarrow> ('t, 'f) PersistentSecondaryIndex \<Rightarrow> StorageEngine \<Rightarrow>
   (error + unit) \<times> ('t, 'f) wrapper_state" where
  "wrap_unique m u st =
     (case m (u, st) of (r, s1) \<Rightarrow> (map_sum id (\<lambda>b. ()) r, (UniqueIndex (fst s1), snd s1)))"

definition wrap_multi ::
  "(bool, ('t, 'f) multi_state) sx \<Rightarrow> ('t, 'f) PersistentMultiValueSecondaryIndex \<Rightarrow>
   StorageEngine \<Rightarrow> (error + unit) \<times> ('t, 'f) wrapper_state" where
  "wrap_multi m u st =
     (case m (u, st) of (r, s1) \<Rightarrow> (map_sum id (\<lambda>b. ()) r, (MultiIndex (fst s1), snd s1)))"

definition insert_record ::
  "'t \<Rightarrow> RecordId \<Rightarrow> (unit, ('t, 'f::linorder) wrapper_state) sx" where
  "insert_record record rid s =
     (case fst s of
        UniqueIndex u \<Rightarrow> wrap_unique (SecondaryIndex_insert record rid) u (snd s)
      | MultiIndex m \<Rightarrow> wrap_multi (MultiValue_insert record rid) m (snd s))"

definition remove_record ::
  "'t \<Rightarrow> RecordId \<Rightarrow> (unit, ('t, 'f::linorder) wrapper_state) sx" where
  "remove_record record rid s =
     (case fst s of
        UniqueIndex u \<Rightarrow> wrap_unique (SecondaryIndex_remove record) u (snd s)
      | MultiIndex m \<Rightarrow> wrap_multi (MultiValue_remove record rid) m (snd s))"

definition update_record ::
  "'t \<Rightarrow> 't \<Rightarrow> RecordId \<Rightarrow> (unit, ('t, 'f::linorder) wrapper_state) sx" where
  "update_record old_rec new_rec rid s =
     (case fst s of
        UniqueIndex u \<Rightarrow> wrap_unique (SecondaryIndex_update old_rec new_rec rid) u (snd s)
      | MultiIndex m \<Rightarrow> wrap_multi (MultiValue_update old_rec new_rec rid) m (snd s))"

text \<open>
  The table. The catalog pointer is null, as it is after construction and until
  \<open>set_catalog\<close> is called, so \<open>sync_catalog_count\<close> does nothing. The operations
  carry the prefix \<open>Table\<close>.
\<close>

record ('t, 'k, 'f) Table =
  storage :: StorageEngine
  table_name :: string
  index :: "('k, RecordId) PersistentBTreeIndex"
  secondary_indexes :: "('t, 'f) SecondaryIndexWrapper list"
  count :: u64

definition on_table_storage :: "('a, StorageEngine) sx \<Rightarrow> ('a, ('t, 'k, 'f) Table) sx" where
  "on_table_storage m tb = (case m (storage tb) of (r, st1) \<Rightarrow> (r, tb\<lparr>storage := st1\<rparr>))"

definition on_primary_index ::
  "('a, ('k, RecordId) index_state) sx \<Rightarrow> ('a, ('t, 'k, 'f) Table) sx" where
  "on_primary_index m tb =
     (case m (Table.index tb, storage tb) of
        (r, s1) \<Rightarrow> (r, tb\<lparr>Table.index := fst s1, storage := snd s1\<rparr>))"

text \<open>
  The loop over \<open>secondary_indexes\<close>: the operation runs on each index in turn; an
  exception leaves the loop with the indexes processed so far updated.
\<close>

fun each_index ::
  "(unit, ('t, 'f) wrapper_state) sx \<Rightarrow> ('t, 'f) SecondaryIndexWrapper list \<Rightarrow> StorageEngine \<Rightarrow>
   (error + unit) \<times> (('t, 'f) SecondaryIndexWrapper list \<times> StorageEngine)" where
  "each_index f [] st = (Inr (), ([], st))"
| "each_index f (w # ws) st =
     (case f (w, st) of
        (Inl e, s1) \<Rightarrow> (Inl e, (fst s1 # ws, snd s1))
      | (Inr u, s1) \<Rightarrow>
          (case each_index f ws (snd s1) of
             (r, s2) \<Rightarrow> (r, (fst s1 # fst s2, snd s2))))"

definition on_secondary_indexes ::
  "(unit, ('t, 'f) wrapper_state) sx \<Rightarrow> (unit, ('t, 'k, 'f) Table) sx" where
  "on_secondary_indexes f tb =
     (case each_index f (secondary_indexes tb) (storage tb) of
        (r, s1) \<Rightarrow> (r, tb\<lparr>secondary_indexes := fst s1, storage := snd s1\<rparr>))"

definition sync_catalog_count :: "(unit, ('t, 'k, 'f) Table) sx" where
  "sync_catalog_count = returnS ()"

definition Table_new ::
  "string \<Rightarrow> (u64 \<times> ('k, RecordId) Node) list \<Rightarrow> u64 \<Rightarrow> StorageEngine \<Rightarrow>
   error + ('t, 'k, 'f) Table" where
  "Table_new name existing root st =
     (case BTree_new existing root st of
        (Inl e, s1) \<Rightarrow> Inl e
      | (Inr u, s1) \<Rightarrow>
          Inr \<lparr>storage = snd s1, table_name = name, index = fst s1, secondary_indexes = [],
               count = BTree_size (fst s1)\<rparr>)"

definition load_record :: "('t, 'k) Queryable \<Rightarrow> RecordId \<Rightarrow> ('t, ('t, 'k, 'f) Table) sx" where
  "load_record q rid =
     bindS (on_table_storage (read_page (RecordId.page_id rid))) (\<lambda>page.
     (\<lambda>tb. (deserialize q (data page), tb)))"

definition Table_insert ::
  "('t, 'k::linorder) Queryable \<Rightarrow> 't \<Rightarrow> (unit, ('t, 'k, 'f::linorder) Table) sx" where
  "Table_insert q record =
     (let key = get_primary_key q record in
      bindS (\<lambda>tb. (BTree_contains (Table.index tb) key, tb)) (\<lambda>exists.
      if exists then throwS RecordAlreadyExists
      else
        (let bytes = serialize q record in
         bindS (on_table_storage (allocate_page DATA)) (\<lambda>pid.
         bindS (on_table_storage (read_page pid)) (\<lambda>page.
         if \<not> can_fit page (length bytes) then throwS RecordTooLarge
         else
           bindS (\<lambda>tb. (write_data 0 bytes page, tb)) (\<lambda>page1.
           let page2 = page1\<lparr>header := (header page1)
                          \<lparr>record_count := 1,
                           free_space_offset := of_nat (HEADER_SIZE + length bytes)\<rparr>\<rparr>
           in
           bindS (on_table_storage (\<lambda>st. (Inr (), write_page pid page2 st))) (\<lambda>u.
           let rid = \<lparr>RecordId.page_id = pid, slot = 0\<rparr> in
           bindS (on_primary_index (BTree_insert key rid)) (\<lambda>inserted.
           bindS (on_secondary_indexes (insert_record record rid)) (\<lambda>u.
           bindS (\<lambda>tb. (Inr (), tb\<lparr>count := count tb + 1\<rparr>)) (\<lambda>u.
           sync_catalog_count))))))))))"

definition Table_update ::
  "('t, 'k::linorder) Queryable \<Rightarrow> 't \<Rightarrow> (unit, ('t, 'k, 'f::linorder) Table) sx" where
  "Table_update q record =
     (let key = get_primary_key q record in
      bindS (\<lambda>tb. (BTree_find (Table.index tb) key, tb)) (\<lambda>rid_opt.
      case rid_opt of
        None \<Rightarrow> throwS RecordNotFound
      | Some rid \<Rightarrow>
          bindS (load_record q rid) (\<lambda>old_record.
          let bytes = serialize q record in
          bindS (on_table_storage (read_page (RecordId.page_id rid))) (\<lambda>page.
          if \<not> can_fit page (length bytes) then throwS UpdatedRecordTooLarge
          else
            bindS (\<lambda>tb. (write_data 0 bytes page, tb)) (\<lambda>page1.
            bindS (on_table_storage
                     (\<lambda>st. (Inr (), write_page (RecordId.page_id rid) page1 st))) (\<lambda>u.
            on_secondary_indexes (update_record old_record record rid)))))))"

definition Table_remove ::
  "('t, 'k::linorder) Queryable \<Rightarrow> 'k \<Rightarrow> (bool, ('t, 'k, 'f::linorder) Table) sx" where
  "Table_remove q key =
     bindS (\<lambda>tb. (BTree_find (Table.index tb) key, tb)) (\<lambda>rid_opt.
     case rid_opt of
       None \<Rightarrow> returnS False
     | Some rid \<Rightarrow>
         bindS (load_record q rid) (\<lambda>record.
         bindS (on_secondary_indexes (remove_record record rid)) (\<lambda>u.
         bindS (on_table_storage (deallocate_page (RecordId.page_id rid))) (\<lambda>u.
         bindS (on_primary_index (BTree_remove key)) (\<lambda>removed.
         bindS (\<lambda>tb. (Inr (), tb\<lparr>count := count tb - 1\<rparr>)) (\<lambda>u.
         bindS sync_catalog_count (\<lambda>u.
         returnS True)))))))"

text \<open>
  \<open>find\<close>: the index lookup is outside the \<open>try\<close> block, \<open>load_record\<close> is inside
  it, and every exception the model knows is a \<open>std::exception\<close>.
\<close>

definition Table_find ::
  "('t, 'k::linorder) Queryable \<Rightarrow> 'k \<Rightarrow> ('t option, ('t, 'k, 'f) Table) sx" where
  "Table_find q key =
     bindS (\<lambda>tb. (BTree_find (Table.index tb) key, tb)) (\<lambda>rid_opt.
     case rid_opt of
       None \<Rightarrow> returnS None
     | Some rid \<Rightarrow>
         (\<lambda>tb. case load_record q rid tb of
                 (Inl e, tb1) \<Rightarrow> (Inr None, tb1)
               | (Inr record, tb1) \<Rightarrow> (Inr (Some record), tb1)))"

definition Table_contains :: "('t, 'k::linorder, 'f) Table \<Rightarrow> 'k \<Rightarrow> error + bool" where
  "Table_contains tb key = BTree_contains (Table.index tb) key"

section \<open>The B+Tree as stored in the node pages\<close>

text \<open>
  The shape of a well-formed index, used to state what \<open>range_query\<close> returns. A
  \<open>bpt\<close> is a leaf (its page id and its key-value pairs) or an internal node (its
  page id, its separator keys and its children). \<open>shape\<close> says that the nodes saved
  under these page ids are the nodes of the tree; \<open>separators\<close> that the keys below
  child \<open>i\<close> are less than separator \<open>i\<close> and not less than separator \<open>i - 1\<close>;
  \<open>chain\<close> that the \<open>next_page_id\<close> links run through the leaves from left to right
  and end with 0. The invariant adds that the root is the root of the tree, that the
  keys ascend along the leaf chain and that no page id occurs twice.
\<close>

datatype ('k, 'v) bpt = Lf u64 "('k \<times> 'v) list" | Nd u64 "'k list" "('k, 'v) bpt list"

fun node_id :: "('k, 'v) bpt \<Rightarrow> u64" where
  "node_id (Lf p es) = p"
| "node_id (Nd p ks ts) = p"

fun leaves :: "('k, 'v) bpt \<Rightarrow> (u64 \<times> ('k \<times> 'v) list) list" where
  "leaves (Lf p es) = [(p, es)]"
| "leaves (Nd p ks ts) = concat (map leaves ts)"

definition entries :: "('k, 'v) bpt \<Rightarrow> ('k \<times> 'v) list" where
  "entries bt = concat (map snd (leaves bt))"

fun ids :: "('k, 'v) bpt \<Rightarrow> u64 list" where
  "ids (Lf p es) = [p]"
| "ids (Nd p ks ts) = p # concat (map ids ts)"

fun depth :: "('k, 'v) bpt \<Rightarrow> nat" where
  "depth (Lf p es) = 1"
| "depth (Nd p ks ts) = Suc (fold max (map depth ts) 0)"

fun shape :: "('k, 'v) PersistentBTreeIndex \<Rightarrow> ('k, 'v) bpt \<Rightarrow> bool" where
  "shape t (Lf p es) =
     (p \<noteq> 0 \<and>
      (case map_of (node_cache t) p of
         None \<Rightarrow> False
       | Some n \<Rightarrow>
           Node.page_id n = p \<and> is_leaf n \<and> keys n = map fst es \<and> vals n = map snd es))"
| "shape t (Nd p ks ts) =
     (p \<noteq> 0 \<and>
      (case map_of (node_cache t) p of
         None \<Rightarrow> False
       | Some n \<Rightarrow>
           Node.page_id n = p \<and> \<not> is_leaf n \<and> keys n = ks \<and>
           children_ids n = map node_id ts) \<and>
      length ts = length ks + 1 \<and>
      (\<forall>c \<in> set ts. shape t c))"

fun separators :: "('k::linorder, 'v) bpt \<Rightarrow> bool" where
  "separators (Lf p es) = True"
| "separators (Nd p ks ts) =
     ((\<forall>i < length ts. \<forall>k \<in> set (map fst (entries (ts ! i))).
         (i < length ks \<longrightarrow> k < ks ! i) \<and> (0 < i \<longrightarrow> ks ! (i - 1) \<le> k)) \<and>
      (\<forall>c \<in> set ts. separators c))"

fun chain ::
  "('k, 'v) PersistentBTreeIndex \<Rightarrow> (u64 \<times> ('k \<times> 'v) list) list \<Rightarrow> u64 \<Rightarrow> bool" where
  "chain t [] nxt = True"
| "chain t (l # ls) nxt =
     (fst l \<noteq> 0 \<and>
      (case map_of (node_cache t) (fst l) of
         None \<Rightarrow> False
       | Some n \<Rightarrow>
           keys n = map fst (snd l) \<and> vals n = map snd (snd l) \<and>
           Node.next_page_id n = (case ls of [] \<Rightarrow> nxt | l1 # ls1 \<Rightarrow> fst l1)) \<and>
      chain t ls nxt)"

definition bptree_invariant ::
  "('k::linorder, 'v) PersistentBTreeIndex \<Rightarrow> ('k, 'v) bpt \<Rightarrow> bool" where
  "bptree_invariant t bt \<longleftrightarrow>
     PersistentBTreeIndex.root_page_id t = node_id bt \<and> shape t bt \<and> separators bt \<and>
     chain t (leaves bt) 0 \<and> sorted (map fst (entries bt)) \<and> distinct (ids bt)"

text \<open>
  What the operations of the index do to a stored tree, written on the tree itself.
  \<open>lower_pos\<close> is the position that \<open>std::lower_bound\<close> finds: \<open>find_insert_pos\<close> and
  the search within a leaf use it. \<open>upper_pos\<close> is the child that \<open>search\<close> and
  \<open>remove_from_node\<close> descend to: the keys up to it are not greater than the key.
  \<open>bpt_find\<close> is the lookup; \<open>bpt_delete\<close> erases the key from the leaf that the lookup
  reaches; \<open>bpt_insert\<close> inserts into the leaf that \<open>insert_non_full\<close> reaches when it
  splits no node.
\<close>

definition lower_pos :: "'k::linorder \<Rightarrow> 'k list \<Rightarrow> nat" where
  "lower_pos k ks = length (takeWhile (\<lambda>x. x < k) ks)"

definition upper_pos :: "'k::linorder \<Rightarrow> 'k list \<Rightarrow> nat" where
  "upper_pos k ks = length (takeWhile (\<lambda>x. x \<le> k) ks)"

definition leaf_find :: "'k::linorder \<Rightarrow> ('k \<times> 'v) list \<Rightarrow> 'v option" where
  "leaf_find k es =
     (let i = lower_pos k (map fst es)
      in if i < length es \<and> fst (es ! i) = k then Some (snd (es ! i)) else None)"

definition leaf_delete :: "'k::linorder \<Rightarrow> ('k \<times> 'v) list \<Rightarrow> ('k \<times> 'v) list" where
  "leaf_delete k es =
     (let i = lower_pos k (map fst es)
      in if i < length es \<and> fst (es ! i) = k then erase_at i es else es)"

definition leaf_insert :: "'k::linorder \<Rightarrow> 'v \<Rightarrow> ('k \<times> 'v) list \<Rightarrow> ('k \<times> 'v) list" where
  "leaf_insert k v es =
     (let i = lower_pos k (map fst es)
      in if i < length es \<and> fst (es ! i) = k then es else insert_at i (k, v) es)"

fun bpt_find :: "'k::linorder \<Rightarrow> ('k, 'v) bpt \<Rightarrow> 'v option" where
  "bpt_find k (Lf p es) = leaf_find k es"
| "bpt_find k (Nd p ks ts) =
     (let i = upper_pos k ks in if i < length ts then map (bpt_find k) ts ! i else None)"

fun bpt_delete :: "'k::linorder \<Rightarrow> ('k, 'v) bpt \<Rightarrow> ('k, 'v) bpt" where
  "bpt_delete k (Lf p es) = Lf p (leaf_delete k es)"
| "bpt_delete k (Nd p ks ts) =
     (let i = upper_pos k ks
      in if i < length ts then Nd p ks (ts[i := map (bpt_delete k) ts ! i]) else Nd p ks ts)"

fun bpt_insert :: "'k::linorder \<Rightarrow> 'v \<Rightarrow> ('k, 'v) bpt \<Rightarrow> ('k, 'v) bpt" where
  "bpt_insert k v (Lf p es) = Lf p (leaf_insert k v es)"
| "bpt_insert k v (Nd p ks ts) =
     (let i = lower_pos k ks
      in if i < length ts then Nd p ks (ts[i := map (bpt_insert k v) ts ! i]) else Nd p ks ts)"

text \<open>
  \<open>room_for k\<close>: on the way of \<open>k\<close> down the tree \<open>insert_non_full\<close> meets no full
  node, so that it splits none, and no separator equal to \<open>k\<close>, so that it descends to
  the leaf where the lookup of \<open>k\<close> arrives.
\<close>

fun room_for :: "'k::linorder \<Rightarrow> ('k, 'v) bpt \<Rightarrow> bool" where
  "room_for k (Lf p es) \<longleftrightarrow> length es < MAX_KEYS"
| "room_for k (Nd p ks ts) \<longleftrightarrow>
     length ks < MAX_KEYS \<and> k \<notin> set ks \<and>
     (let i = lower_pos k ks in i < length ts \<and> map (room_for k) ts ! i)"

text \<open>
  \<open>index_tree t bt\<close>: the nodes saved in the index \<open>t\<close> are the tree \<open>bt\<close>, under its
  root; no page id occurs twice in it, the keys of every leaf ascend strictly and every
  internal node has a key.
\<close>

fun node_keys_ok :: "('k::linorder, 'v) bpt \<Rightarrow> bool" where
  "node_keys_ok (Lf p es) \<longleftrightarrow> sorted_wrt (<) (map fst es)"
| "node_keys_ok (Nd p ks ts) \<longleftrightarrow> ks \<noteq> [] \<and> (\<forall>c \<in> set ts. node_keys_ok c)"

definition index_tree :: "('k::linorder, 'v) PersistentBTreeIndex \<Rightarrow> ('k, 'v) bpt \<Rightarrow> bool" where
  "index_tree t bt \<longleftrightarrow>
     PersistentBTreeIndex.root_page_id t = node_id bt \<and> shape t bt \<and> distinct (ids bt) \<and>
     node_keys_ok bt"

section \<open>Concrete states\<close>

text \<open>A database file created with the default cache size of 64 pages.\<close>

definition fresh_db :: StorageEngine where
  "fresh_db = projr (StorageEngine_new None 64 0)"

text \<open>Two pages are allocated, then page 1 and page 2 are deallocated in this order.\<close>

definition c3_st1 :: StorageEngine where
  "c3_st1 = snd (allocate_page DATA fresh_db)"

definition c3_st2 :: StorageEngine where
  "c3_st2 = snd (allocate_page DATA c3_st1)"

definition c3_st3 :: StorageEngine where
  "c3_st3 = snd (deallocate_page 1 c3_st2)"

definition c3_st4 :: StorageEngine where
  "c3_st4 = snd (deallocate_page 2 c3_st3)"

definition c3_st5 :: StorageEngine where
  "c3_st5 = snd (allocate_page DATA c3_st4)"

text \<open>
  An index over integer keys in the new database: the keys 1, 2, 3, 4 are inserted,
  then key 2 is inserted again (\<open>bt5\<close>); or key 2 is removed and inserted again
  (\<open>bt4r\<close>, \<open>bt5r\<close>).
\<close>

definition bt0 :: "(int, int) index_state" where
  "bt0 = snd (BTree_new [] 0 fresh_db)"

definition bt1 :: "(int, int) index_state" where
  "bt1 = snd (BTree_insert 1 10 bt0)"

definition bt2 :: "(int, int) index_state" where
  "bt2 = snd (BTree_insert 2 20 bt1)"

definition bt3 :: "(int, int) index_state" where
  "bt3 = snd (BTree_insert 3 30 bt2)"

definition bt4 :: "(int, int) index_state" where
  "bt4 = snd (BTree_insert 4 40 bt3)"

definition bt5 :: "(int, int) index_state" where
  "bt5 = snd (BTree_insert 2 99 bt4)"

definition bt4r :: "(int, int) index_state" where
  "bt4r = snd (BTree_remove 2 bt4)"

definition bt5r :: "(int, int) index_state" where
  "bt5r = snd (BTree_insert 2 99 bt4r)"

text \<open>The index after the four inserts: the root 2 with the leaves 1 and 3.\<close>

definition tree4 :: "(int, int) PersistentBTreeIndex" where
  "tree4 =
     \<lparr>PersistentBTreeIndex.root_page_id = 2, tree_size = 4,
      node_cache =
        [(1, \<lparr>Node.page_id = 1, keys = [1], vals = [10], children_ids = [],
               is_leaf = True, next_page_id = 3, prev_page_id = 0\<rparr>),
         (2, \<lparr>Node.page_id = 2, keys = [2], vals = [], children_ids = [1, 3],
               is_leaf = False, next_page_id = 0, prev_page_id = 0\<rparr>),
         (3, \<lparr>Node.page_id = 3, keys = [2, 3, 4], vals = [20, 30, 40], children_ids = [],
               is_leaf = True, next_page_id = 0, prev_page_id = 1\<rparr>)]\<rparr>"

text \<open>A cursor with batch size 2 over \<open>bt5\<close>.\<close>

definition c2_it0 :: BatchIterator where
  "c2_it0 = projr (create_batch_iterator (fst bt5))"

definition c2_it1 :: BatchIterator where
  "c2_it1 = snd (next_batch 2 (fst bt5) c2_it0)"

definition c2_it2 :: BatchIterator where
  "c2_it2 = snd (next_batch 2 (fst bt5) c2_it1)"

definition c2_it3 :: BatchIterator where
  "c2_it3 = snd (next_batch 2 (fst bt5) c2_it2)"

text \<open>
  A file with two stored pages: page 1 has a valid magic number, a free-space offset of
  0 and a stored checksum of 1 over a zero payload; page 2 has the magic \<open>LQL2\<close>.
\<close>

definition c5_page :: Page where
  "c5_page =
     \<lparr>header = PageHeader_default\<lparr>PageHeader.page_id := 1, page_type := DATA,
                                   free_space_offset := 0, checksum := 1\<rparr>,
      data = replicate DATA_SIZE 0\<rparr>"

definition c5_bad_page :: Page where
  "c5_bad_page = c5_page\<lparr>header := (header c5_page)\<lparr>magic := ''LQL2''\<rparr>\<rparr>"

definition c5_db :: StorageEngine where
  "c5_db =
     \<lparr>file_pages = (\<lambda>pid. None)(1 \<mapsto> c5_page, 2 \<mapsto> c5_bad_page),
      next_page_id = 3, free_list_head = 0, sys_tables_root = 0, sys_fields_root = 0,
      sys_indexes_root = 0, cache_size = 64, page_cache = [], dirty_pages = []\<rparr>"

text \<open>
  A database file whose page 0 carries the version \<open>ver\<close>: the signature, then
  \<open>next_page_id = 3\<close>, \<open>free_list_head = 0\<close>, the roots 1 and 2, the version and
  the timestamp.
\<close>

definition c7_page0 :: "u32 \<Rightarrow> Page" where
  "c7_page0 ver =
     (Page_new 0 METADATA)
       \<lparr>data := db_header @ le_bytes 8 (3::u64) @ le_bytes 8 (0::u64) @ le_bytes 8 (1::u64)
                 @ le_bytes 8 (2::u64) @ le_bytes 4 ver @ le_bytes 8 (0::u64)
                 @ replicate 3972 0\<rparr>"

definition c7_file :: "u32 \<Rightarrow> u64 \<Rightarrow> Page option" where
  "c7_file ver = (\<lambda>pid. None)(0 \<mapsto> c7_page0 ver)"

definition c7_db :: StorageEngine where
  "c7_db = projr (StorageEngine_new (Some (c7_file 2)) 64 0)"

definition c7_saved :: StorageEngine where
  "c7_saved = snd (save_metadata c7_db)"

text \<open>
  The upgrade of \<open>initialize_system_catalog\<close> in \<open>Database.hpp\<close>, which runs on an
  opened database whose catalog roots are set and whose \<open>sys_indexes_root\<close> is 0: the
  table \<open>_sys_indexes\<close> is created and its root page is passed to
  \<open>set_sys_indexes_root\<close>. Then the engine is destroyed, which flushes the dirty pages.
\<close>

definition c7_sys_indexes :: "(u8 \<times> u8 list, u8, int) Table" where
  "c7_sys_indexes = projr (Table_new ''_sys_indexes'' [] 0 c7_db)"

definition c7_upgraded :: StorageEngine where
  "c7_upgraded =
     snd (set_sys_indexes_root (PersistentBTreeIndex.root_page_id (Table.index c7_sys_indexes))
            (storage c7_sys_indexes))"

definition c7_closed :: StorageEngine where
  "c7_closed = flush_all c7_upgraded"

text \<open>
  A unique index on the second component of a pair. \<open>c8_two\<close> holds the values 10, 20
  and 30 for the records on the pages 4, 5 and 6, in two leaves under the root;
  \<open>c8_bt\<close> is its tree. It is built in the new database by the inserts of 10, 20, 30
  and 40 (\<open>c8_s4\<close>, whose right leaf is full) and the removal of 40 (\<open>c8_s5\<close>). Then
  four updates of \<open>c8_s5\<close>: one that keeps the field value, one whose old value is not
  indexed, one that moves the value 20 to 25, one that moves it to the value 30, which
  is indexed already; and an update of \<open>c8_s4\<close> whose insert splits the full leaf.
\<close>

definition c8_rid :: "u64 \<Rightarrow> RecordId" where
  "c8_rid p = \<lparr>RecordId.page_id = p, slot = 0\<rparr>"



definition c8_empty :: "(int \<times> int, int) unique_state" where
  "c8_empty =
     (case BTree_new [] 0 fresh_db of
        (r, s) \<Rightarrow> (\<lparr>PersistentSecondaryIndex.field_name = ''age'', getter = snd,
                    index = fst s\<rparr>, snd s))"

definition c8_s1 :: "(int \<times> int, int) unique_state" where
  "c8_s1 = snd (SecondaryIndex_insert (1, 10) (c8_rid 4) c8_empty)"

definition c8_s2 :: "(int \<times> int, int) unique_state" where
  "c8_s2 = snd (SecondaryIndex_insert (2, 20) (c8_rid 5) c8_s1)"

definition c8_s3 :: "(int \<times> int, int) unique_state" where
  "c8_s3 = snd (SecondaryIndex_insert (3, 30) (c8_rid 6) c8_s2)"

definition c8_s4 :: "(int \<times> int, int) unique_state" where
  "c8_s4 = snd (SecondaryIndex_insert (4, 40) (c8_rid 7) c8_s3)"






definition c8_split :: "(error + bool) \<times> (int \<times> int, int) unique_state" where
  "c8_split = SecondaryIndex_update (1, 10) (1, 50) (c8_rid 4) c8_s4"

text \<open>
  A record type for tables: a key byte and a body, serialized as the key, the length of
  the body in four bytes and the body.
\<close>

definition blob_codec :: "(u8 \<times> u8 list, u8) Queryable" where
  "blob_codec =
     \<lparr>get_primary_key = fst,
      serialize = (\<lambda>r. fst r # le_bytes 4 (of_nat (length (snd r)) :: u32) @ snd r),
      deserialize = (\<lambda>bs.
        case bs of
          [] \<Rightarrow> Inl NotEnoughData
        | k # rest \<Rightarrow>
            if length rest < 4 then Inl NotEnoughData
            else
              (let n = unat (from_le_bytes (take 4 rest) :: u32) in
               if length rest - 4 < n then Inl NotEnoughData
               else Inr (k, take n (drop 4 rest))))\<rparr>"

text \<open>
  A table whose primary index maps key 1 to page 5, in a database file that has no
  page 5.
\<close>

definition c10_tb :: "(u8 \<times> u8 list, u8, int) Table" where
  "c10_tb =
     \<lparr>storage = fresh_db, table_name = ''blobs'',
      index = \<lparr>PersistentBTreeIndex.root_page_id = 1, tree_size = 1,
               node_cache =
                 [(1, \<lparr>Node.page_id = 1, keys = [1],
                        vals = [\<lparr>RecordId.page_id = 5, slot = 0\<rparr>],
                        children_ids = [], is_leaf = True, next_page_id = 0,
                        prev_page_id = 0\<rparr>)]\<rparr>,
      secondary_indexes = [], count = 1\<rparr>"

text \<open>
  The same table in a database file whose page 5 holds a record with a length field
  larger than the page.
\<close>

definition c10_page :: Page where
  "c10_page = (Page_new 5 DATA)\<lparr>data := [1, 255, 255, 255, 255] @ replicate 4027 0\<rparr>"

definition c10_corrupt :: "(u8 \<times> u8 list, u8, int) Table" where
  "c10_corrupt =
     c10_tb\<lparr>storage := fresh_db\<lparr>file_pages := (file_pages fresh_db)(5 \<mapsto> c10_page)\<rparr>\<rparr>"

text \<open>
  The nodes of a primary index whose root, on page 2, points to the leaf on page 1 and
  to page 77, which holds no node; and the table opened on them.
\<close>

definition c10_nodes :: "(u64 \<times> (u8, RecordId) Node) list" where
  "c10_nodes =
     [(1, \<lparr>Node.page_id = 1, keys = [1], vals = [\<lparr>RecordId.page_id = 5, slot = 0\<rparr>],
            children_ids = [], is_leaf = True, next_page_id = 0, prev_page_id = 0\<rparr>),
      (2, \<lparr>Node.page_id = 2, keys = [2], vals = [], children_ids = [1, 77],
            is_leaf = False, next_page_id = 0, prev_page_id = 0\<rparr>)]"

definition c10_broken :: "(u8 \<times> u8 list, u8, int) Table" where
  "c10_broken =
     \<lparr>storage = fresh_db, table_name = ''blobs'',
      index = \<lparr>PersistentBTreeIndex.root_page_id = 2, tree_size = 1, node_cache = c10_nodes\<rparr>,
      secondary_indexes = [], count = 1\<rparr>"

text \<open>
  An empty table in the new database, a record of 4105 serialized bytes, and the engine
  after the allocation and the read that \<open>Table_insert\<close> performs for it.
\<close>

definition c9_tb :: "(u8 \<times> u8 list, u8, int) Table" where
  "c9_tb = projr (Table_new ''blobs'' [] 0 fresh_db)"

definition c9_rec :: "u8 \<times> u8 list" where
  "c9_rec = (1, replicate 4100 0)"

definition c9_st1 :: StorageEngine where
  "c9_st1 = snd (allocate_page DATA (storage c9_tb))"

definition c9_st2 :: StorageEngine where
  "c9_st2 = snd (read_page 2 c9_st1)"

text \<open>
  Two records with key 1 and 2100 serialized bytes each; the table after the insert of
  the first.
\<close>

definition c4_rec :: "u8 \<times> u8 list" where
  "c4_rec = (1, replicate 2095 7)"

definition c4_rec' :: "u8 \<times> u8 list" where
  "c4_rec' = (1, replicate 2095 9)"

definition c4_tb :: "(u8 \<times> u8 list, u8, int) Table" where
  "c4_tb = snd (Table_insert blob_codec c4_rec c9_tb)"

text \<open>
  A multi-value index on the second component of a pair: the field value 7 is indexed
  for the records on the pages 10, 11 and 12, the field value 9 for the record on page
  13; \<open>c6_bt\<close> is its tree.
\<close>

definition c6_rid :: "u64 \<Rightarrow> RecordId" where
  "c6_rid p = \<lparr>RecordId.page_id = p, slot = 0\<rparr>"

definition c6_idx :: "(int \<times> int, int) PersistentMultiValueSecondaryIndex" where
  "c6_idx =
     \<lparr>PersistentMultiValueSecondaryIndex.field_name = ''department'', getter = snd,
      index = \<lparr>PersistentBTreeIndex.root_page_id = 2, tree_size = 4,
               node_cache =
                 [(1, \<lparr>Node.page_id = 1, keys = [CompositeKey 7 10], vals = [c6_rid 10],
                        children_ids = [], is_leaf = True, next_page_id = 3,
                        prev_page_id = 0\<rparr>),
                  (2, \<lparr>Node.page_id = 2, keys = [CompositeKey 7 11], vals = [],
                        children_ids = [1, 3], is_leaf = False, next_page_id = 0,
                        prev_page_id = 0\<rparr>),
                  (3, \<lparr>Node.page_id = 3,
                        keys = [CompositeKey 7 11, CompositeKey 7 12, CompositeKey 9 13],
                        vals = [c6_rid 11, c6_rid 12, c6_rid 13],
                        children_ids = [], is_leaf = True, next_page_id = 0,
                        prev_page_id = 1\<rparr>)]\<rparr>\<rparr>"

definition c6_bt :: "(int CompositeKey, RecordId) bpt" where
  "c6_bt =
     Nd 2 [CompositeKey 7 11]
       [Lf 1 [(CompositeKey 7 10, c6_rid 10)],
        Lf 3 [(CompositeKey 7 11, c6_rid 11), (CompositeKey 7 12, c6_rid 12),
              (CompositeKey 9 13, c6_rid 13)]]"

text \<open>
  The same index built in the new database: the records (1, 7), (2, 7), (3, 7) and (4, 9)
  are inserted with the record ids of the pages 10, 11, 12 and 13.
\<close>

definition c6_empty :: "(int \<times> int, int) multi_state" where
  "c6_empty =
     (case BTree_new [] 0 fresh_db of
        (r, s) \<Rightarrow> (\<lparr>PersistentMultiValueSecondaryIndex.field_name = ''department'', getter = snd,
                    index = fst s\<rparr>, snd s))"

definition c6_s1 :: "(int \<times> int, int) multi_state" where
  "c6_s1 = snd (MultiValue_insert (1, 7) (c6_rid 10) c6_empty)"

definition c6_s2 :: "(int \<times> int, int) multi_state" where
  "c6_s2 = snd (MultiValue_insert (2, 7) (c6_rid 11) c6_s1)"

definition c6_s3 :: "(int \<times> int, int) multi_state" where
  "c6_s3 = snd (MultiValue_insert (3, 7) (c6_rid 12) c6_s2)"

definition c6_s4 :: "(int \<times> int, int) multi_state" where
  "c6_s4 = snd (MultiValue_insert (4, 9) (c6_rid 13) c6_s3)"

text \<open>
  The record on page 11 is updated three times: its field value goes from 7 to 9, back
  to 7 and to 9 again. \<open>c6_records\<close> are the records of the table after these updates,
  with their record ids, and \<open>c6_records_with v\<close> are the record ids of those whose
  field value is \<open>v\<close>. \<open>c6_tree left right\<close> is the index with the given keys in its
  two leaves.
\<close>

definition c6_u1 :: "(int \<times> int, int) multi_state" where
  "c6_u1 = snd (MultiValue_update (2, 7) (2, 9) (c6_rid 11) c6_s4)"

definition c6_u2 :: "(int \<times> int, int) multi_state" where
  "c6_u2 = snd (MultiValue_update (2, 9) (2, 7) (c6_rid 11) c6_u1)"

definition c6_u3 :: "(int \<times> int, int) multi_state" where
  "c6_u3 = snd (MultiValue_update (2, 7) (2, 9) (c6_rid 11) c6_u2)"

definition c6_records :: "((int \<times> int) \<times> RecordId) list" where
  "c6_records =
     [((1, 7), c6_rid 10), ((2, 9), c6_rid 11), ((3, 7), c6_rid 12), ((4, 9), c6_rid 13)]"

definition c6_records_with :: "int \<Rightarrow> RecordId list" where
  "c6_records_with v = map snd (filter (\<lambda>r. snd (fst r) = v) c6_records)"

definition c6_tree ::
  "int CompositeKey list \<Rightarrow> int CompositeKey list \<Rightarrow>
   (int \<times> int, int) PersistentMultiValueSecondaryIndex" where
  "c6_tree left right =
     \<lparr>PersistentMultiValueSecondaryIndex.field_name = ''department'', getter = snd,
      index = \<lparr>PersistentBTreeIndex.root_page_id = 2, tree_size = 4,
               node_cache =
                 [(1, \<lparr>Node.page_id = 1, keys = left,
                        vals = map (\<lambda>k. c6_rid (CompositeKey.page_id k)) left,
                        children_ids = [], is_leaf = True, next_page_id = 3,
                        prev_page_id = 0\<rparr>),
                  (2, \<lparr>Node.page_id = 2, keys = [CompositeKey 7 11], vals = [],
                        children_ids = [1, 3], is_leaf = False, next_page_id = 0,
                        prev_page_id = 0\<rparr>),
                  (3, \<lparr>Node.page_id = 3, keys = right,
                        vals = map (\<lambda>k. c6_rid (CompositeKey.page_id k)) right,
                        children_ids = [], is_leaf = True, next_page_id = 0,
                        prev_page_id = 1\<rparr>)]\<rparr>\<rparr>"

section \<open>Evaluation rules\<close>

lemma length_le_bytes [simp]: "length (le_bytes n w) = n"
  by (induction n arbitrary: w) auto

lemma length_db_header [simp]: "length db_header = 16"
  by (simp add: db_header_def)

lemma DATA_SIZE_val: "DATA_SIZE = 4032"
  by (simp add: DATA_SIZE_def PAGE_SIZE_def HEADER_SIZE_def)

lemma bind_err_Inr [simp]: "bind_err (Inr a) f = f a"
  by (simp add: bind_err_def)

lemma bind_err_Inl [simp]: "bind_err (Inl e) f = Inl e"
  by (simp add: bind_err_def)

text \<open>
  The continuation of a bind is looked at once the first computation has been
  evaluated, not before.
\<close>

lemma bind_err_weak_cong [cong]: "m = m' \<Longrightarrow> bind_err m f = bind_err m' f"
  by simp

lemma bindS_weak_cong [cong]: "m = m' \<Longrightarrow> bindS m f s = bindS m' f s"
  by simp

lemmas insert_non_full_numeral [simp] =
  insert_non_full.simps(2) [of "pred_numeral n" for n, unfolded numeral_eq_Suc [symmetric]]

lemmas remove_from_node_numeral [simp] =
  remove_from_node.simps(2) [of "pred_numeral n" for n, unfolded numeral_eq_Suc [symmetric]]

lemmas search_numeral [simp] =
  search.simps(2) [of "pred_numeral n" for n, unfolded numeral_eq_Suc [symmetric]]

lemmas find_leaf_for_key_numeral [simp] =
  find_leaf_for_key.simps(2) [of "pred_numeral n" for n, unfolded numeral_eq_Suc [symmetric]]

lemmas range_walk_numeral [simp] =
  range_walk.simps(2) [of "pred_numeral n" for n, unfolded numeral_eq_Suc [symmetric]]

lemmas find_leftmost_leaf_numeral [simp] =
  find_leftmost_leaf.simps(2) [of "pred_numeral n" for n, unfolded numeral_eq_Suc [symmetric]]

lemmas find_leftmost_leaf_it_numeral [simp] =
  find_leftmost_leaf_it.simps(2) [of "pred_numeral n" for n, unfolded numeral_eq_Suc [symmetric]]

lemmas leaf_walk_numeral [simp] =
  leaf_walk.simps(2) [of "pred_numeral n" for n, unfolded numeral_eq_Suc [symmetric]]

lemmas next_batch_loop_numeral [simp] =
  next_batch_loop.simps(2) [of "pred_numeral n" for n, unfolded numeral_eq_Suc [symmetric]]

lemmas storage_eval =
  StorageEngine_new_def create_new_database_def load_metadata_def write_data_def read_data_def
  read_u64_def read_u32_def Page_new_def DATA_SIZE_val allocate_page_def write_page_def
  save_metadata_def read_page_def write_metadata_fields_def cache_store_def cache_erase_def
  is_valid_def update_checksum_def PageHeader_default_def deallocate_page_def clear_def
  flush_all_def Let_def

lemmas btree_eval =
  BTree_new_def BTree_insert_def BTree_remove_def BTree_find_def BTree_contains_def
  BTree_get_all_def BTree_range_query_def range_query_helper_def traverse_def
  bindS_def returnS_def throwS_def allocate_node_def deallocate_node_def on_storage_def
  save_node_def load_node_def node_at_def node_store_def Node_new_def set_root_def
  set_size_def is_full_def MAX_KEYS_def ORDER_def depth_bound_def find_insert_pos_def
  insert_at_def erase_at_def split_child_def at_index_def Let_def

lemmas cursor_eval =
  create_batch_iterator_def BatchIterator_new_def next_batch_def has_more_def node_at_def
  Let_def

lemmas secondary_eval =
  SecondaryIndex_insert_def SecondaryIndex_find_def SecondaryIndex_remove_def
  SecondaryIndex_update_def on_unique_index_def

lemmas table_eval =
  Table_new_def Table_insert_def Table_update_def Table_remove_def Table_find_def
  load_record_def on_table_storage_def on_primary_index_def on_secondary_indexes_def
  each_index.simps sync_catalog_count_def can_fit_def available_space_def BTree_size_def
  HEADER_SIZE_def

section \<open>The free list (C3)\<close>

text \<open>
  C3 (the code departs from the claim). In a new database, allocate pages 1 and 2,
  deallocate page 1 (the free list is now 1) and then page 2. After the second call the
  free-list head is 2, but the \<open>next_page_id\<close> field of page 2 is 0 and not the previous
  head 1: \<open>clear\<close> resets the header after the link was stored in it. The next
  allocation reuses page 2 and sets the free-list head to 0, and the one after it takes
  the new page 3: the free page 1 is lost.
\<close>

theorem deallocate_page_loses_free_list:
  "fst (allocate_page DATA fresh_db) = Inr 1
   \<and> fst (allocate_page DATA c3_st1) = Inr 2
   \<and> fst (deallocate_page 1 c3_st2) = Inr ()
   \<and> free_list_head c3_st3 = 1
   \<and> fst (deallocate_page 2 c3_st3) = Inr ()
   \<and> free_list_head c3_st4 = 2
   \<and> map_sum id (\<lambda>p. PageHeader.next_page_id (header p)) (fst (read_page 2 c3_st4)) = Inr 0
   \<and> fst (allocate_page DATA c3_st4) = Inr 2
   \<and> free_list_head c3_st5 = 0
   \<and> fst (allocate_page DATA c3_st5) = Inr 3"
  by (simp add: fresh_db_def c3_st1_def c3_st2_def c3_st3_def c3_st4_def c3_st5_def
      storage_eval cong: let_weak_cong)

section \<open>Insertion into the B+Tree (C1, C2)\<close>

lemma bt4_tree: "fst bt4 = tree4"
  by (simp add: tree4_def bt0_def bt1_def bt2_def bt3_def bt4_def fresh_db_def
      storage_eval btree_eval cong: let_weak_cong)

lemma four_inserts:
  "fst (BTree_insert 1 10 bt0) = Inr True \<and> fst (BTree_insert 2 20 bt1) = Inr True
   \<and> fst (BTree_insert 3 30 bt2) = Inr True \<and> fst (BTree_insert 4 40 bt3) = Inr True"
  by (simp add: bt0_def bt1_def bt2_def bt3_def fresh_db_def storage_eval btree_eval
      cong: let_weak_cong)

text \<open>
  C1 (the code departs from the claim). After the inserts of 1, 2, 3, 4 the root holds
  the separator 2, copied from the right leaf. \<open>insert_non_full\<close> routes with
  \<open>find_insert_pos\<close> (\<open>lower_bound\<close>), which sends a key equal to a separator to
  the left child, while \<open>search\<close> and \<open>remove_from_node\<close> send it to the right
  child. So a second insert of key 2 returns true although the key is stored, and
  \<open>find\<close> still returns the old value 20; and after removing key 2, a successful
  insert of key 2 is followed by a \<open>find\<close> that returns nothing.
\<close>

theorem insert_of_separator_key_goes_left:
  "BTree_find (fst bt4) 2 = Inr (Some 20)
   \<and> fst (BTree_insert 2 99 bt4) = Inr True
   \<and> BTree_find (fst bt5) 2 = Inr (Some 20)
   \<and> fst (BTree_remove 2 bt4) = Inr True
   \<and> BTree_find (fst bt4r) 2 = Inr None
   \<and> fst (BTree_insert 2 99 bt4r) = Inr True
   \<and> BTree_find (fst bt5r) 2 = Inr None"
  by (simp add: bt5_def bt5r_def bt4r_def bt4_tree tree4_def btree_eval cong: let_weak_cong)

text \<open>
  C2 (the code departs from the claim). The five inserts 1, 2, 3, 4, 2 all return true,
  and \<open>get_all\<close> then returns five pairs with key 2 twice: the keys are not strictly
  ascending. A cursor with batch size 2 visits the same five pairs, at most two per
  batch.
\<close>

theorem get_all_repeats_separator_key:
  "fst (BTree_insert 2 99 bt4) = Inr True
   \<and> BTree_get_all (fst bt5) = Inr [(1, 10), (2, 99), (2, 20), (3, 30), (4, 40)]
   \<and> fst (next_batch 2 (fst bt5) c2_it0) = Inr [(1, 10), (2, 99)]
   \<and> fst (next_batch 2 (fst bt5) c2_it1) = Inr [(2, 20), (3, 30)]
   \<and> fst (next_batch 2 (fst bt5) c2_it2) = Inr [(4, 40)]
   \<and> \<not> has_more c2_it3"
  by (simp add: bt5_def c2_it0_def c2_it1_def c2_it2_def c2_it3_def bt4_tree tree4_def
      btree_eval cursor_eval cong: let_weak_cong)

section \<open>Loading a page (C5)\<close>

lemma fold_xor_zero: "fold (\<lambda>byte c. c XOR ucast byte) (replicate n (0::u8)) (c::u32) = c"
  by (induction n) (simp_all del: fold_replicate)

lemma compute_checksum_zero_payload: "data p = replicate n 0 \<Longrightarrow> compute_checksum p = 0"
  by (simp add: compute_checksum_def fold_xor_zero del: fold_replicate)

text \<open>
  C5, counterexample. Page 1 of the file \<open>c5_db\<close> is loaded from disk and returned,
  although its free-space offset is below 64 and its stored checksum differs from the
  checksum of its payload.
\<close>

theorem read_page_returns_unchecked_page:
  "fst (read_page 1 c5_db) = Inr c5_page
   \<and> unat (free_space_offset (header c5_page)) < 64
   \<and> \<not> validate_checksum c5_page"
  by (simp add: c5_db_def c5_page_def read_page_def is_valid_def PageHeader_default_def
      validate_checksum_def compute_checksum_zero_payload [of _ DATA_SIZE])

text \<open>
  C5, as amended. A page that \<open>read_page\<close> loads from the file (the page is not in
  the cache) is returned exactly when its magic number is valid; with an invalid magic
  number the call fails with an error. Nothing else is checked at load.
\<close>

theorem read_page_checks_magic_only:
  assumes "map_of (page_cache st) pid = None" and "file_pages st pid = Some p"
  shows "fst (read_page pid st) = (if is_valid (header p) then Inr p else Inl (InvalidPageHeader pid))"
  using assms by (simp add: read_page_def Let_def)

theorem read_page_checks_magic_only_witness:
  "map_of (page_cache c5_db) 1 = None \<and> file_pages c5_db 1 = Some c5_page
   \<and> fst (read_page 1 c5_db) = Inr c5_page
   \<and> map_of (page_cache c5_db) 2 = None \<and> file_pages c5_db 2 = Some c5_bad_page
   \<and> fst (read_page 2 c5_db) = Inl (InvalidPageHeader 2)"
proof -
  have c1: "map_of (page_cache c5_db) 1 = None" and f1: "file_pages c5_db 1 = Some c5_page"
    and c2: "map_of (page_cache c5_db) 2 = None" and f2: "file_pages c5_db 2 = Some c5_bad_page"
    by (simp_all add: c5_db_def)
  have v1: "is_valid (header c5_page)" and v2: "\<not> is_valid (header c5_bad_page)"
    by (simp_all add: c5_page_def c5_bad_page_def is_valid_def PageHeader_default_def MAGIC_NUMBER_def)
  show ?thesis
    using read_page_checks_magic_only [OF c1 f1] read_page_checks_magic_only [OF c2 f2]
      c1 f1 c2 f2 v1 v2
    by simp
qed

section \<open>The metadata page (C7)\<close>

lemma from_le_bytes_le_bytes:
  "(from_le_bytes (le_bytes n w) :: 'a::len word) = take_bit (8 * n) (w :: 'a word)"
proof (induction n arbitrary: w)
  case 0
  show ?case by simp
next
  case (Suc n)
  show ?case
    apply (simp add: Suc)
    apply (rule bit_eqI)
    apply (auto simp add: bit_simps)
    done
qed

lemma from_le_bytes_u32 [simp]: "from_le_bytes (le_bytes 4 (w::u32)) = w"
  by (simp add: from_le_bytes_le_bytes take_bit_word_eq_self)

lemma from_le_bytes_u64 [simp]: "from_le_bytes (le_bytes 8 (w::u64)) = w"
  by (simp add: from_le_bytes_le_bytes take_bit_word_eq_self)

lemma map_of_replace:
  "map_of (map (\<lambda>(k, v). if k = pid then (k, p) else (k, v)) c) k
     = (if k = pid then map_option (\<lambda>v. p) (map_of c pid) else map_of c k)"
  by (induction c) auto

lemma map_of_cache_store:
  "map_of (cache_store pid p c) k = (if k = pid then Some p else map_of c k)"
proof (cases "pid \<in> fst ` set c")
  case True
  then obtain v where "map_of c pid = Some v"
    by (metis domD dom_map_of_conv_image_fst)
  with True show ?thesis by (simp add: cache_store_def map_of_replace)
next
  case False
  then have "map_of c pid = None" by (simp add: map_of_eq_None_iff)
  with False show ?thesis
    by (auto simp add: cache_store_def map_add_def split: option.splits)
qed

lemma flush_one_data:
  "map_option data (map_of (page_cache (flush_one pid st)) k) = map_option data (map_of (page_cache st) k)"
  by (auto simp add: flush_one_def map_of_cache_store update_checksum_def Let_def split: option.splits)

lemma fold_flush_one_data:
  "map_option data (map_of (page_cache (fold flush_one ds st)) k) = map_option data (map_of (page_cache st) k)"
  by (induction ds arbitrary: st) (simp_all add: flush_one_data)

lemma flush_all_data:
  "map_option data (map_of (page_cache (flush_all st)) k) = map_option data (map_of (page_cache st) k)"
  by (simp add: flush_all_def fold_flush_one_data)

lemma write_page_data:
  "map_option data (map_of (page_cache (write_page pid p st)) pid) = Some (data p)"
proof -
  define st1 where "st1 = st\<lparr>page_cache := cache_store pid p (page_cache st),
                                dirty_pages := List.insert pid (dirty_pages st)\<rparr>"
  have a: "map_option data (map_of (page_cache st1) pid) = Some (data p)"
    by (simp add: st1_def map_of_cache_store)
  have "write_page pid p st = flush_all st1 \<or> write_page pid p st = st1"
    by (simp add: write_page_def st1_def Let_def)
  then show ?thesis using a flush_all_data [of st1 pid] by auto
qed

lemma read_page_cached:
  "map_of (page_cache st) pid = Some p \<Longrightarrow> read_page pid st = (Inr p, st)"
  by (simp add: read_page_def)

lemma read_u32_data: "data p = data q \<Longrightarrow> read_u32 off p = read_u32 off q"
  by (simp add: read_u32_def read_data_def)

lemma within_page_mod: "n \<le> DATA_SIZE \<Longrightarrow> n mod 2 ^ 64 = n"
  by (simp add: DATA_SIZE_val)

lemma write_data_length:
  "write_data off src p = Inr p' \<Longrightarrow> length (data p) = DATA_SIZE \<Longrightarrow>
     off + length src \<le> DATA_SIZE \<Longrightarrow> length (data p') = DATA_SIZE"
  by (auto simp add: write_data_def split: if_splits)

lemma write_data_ok:
  "off + length src \<le> DATA_SIZE \<Longrightarrow> \<exists>p'. write_data off src p = Inr p'"
  by (simp add: write_data_def within_page_mod)

lemma write_data_read_data_disjoint:
  assumes "write_data off src p = Inr p'" and "length (data p) = DATA_SIZE"
    and "o2 + n \<le> off \<or> off + length src \<le> o2" and b: "off + length src \<le> DATA_SIZE"
  shows "read_data o2 n p' = read_data o2 n p"
proof -
  from assms(1) have d: "data p' = take off (data p) @ src @ drop (off + length src) (data p)"
    by (auto simp add: write_data_def split: if_splits)
  have "take n (drop o2 (data p')) = take n (drop o2 (data p))"
  proof (rule nth_equalityI)
    have "length (data p') = length (data p)" using assms(2) b by (simp add: d)
    then show "length (take n (drop o2 (data p'))) = length (take n (drop o2 (data p)))"
      by simp
  next
    fix i assume "i < length (take n (drop o2 (data p')))"
    then have i: "i < n" "o2 + i < length (data p')" by auto
    have l: "length (data p') = length (data p)" using assms(2) b by (simp add: d)
    from assms(3) show "take n (drop o2 (data p')) ! i = take n (drop o2 (data p)) ! i"
    proof
      assume "o2 + n \<le> off"
      with i l assms(2) b show ?thesis by (simp add: d nth_append)
    next
      assume "off + length src \<le> o2"
      with i l assms(2) b show ?thesis by (simp add: d nth_append)
    qed
  qed
  then show ?thesis by (simp add: read_data_def)
qed

lemma write_metadata_fields_ok:
  assumes "length (data p) = DATA_SIZE"
  shows "\<exists>p'. write_metadata_fields st p = Inr p' \<and> read_data 48 4 p' = read_data 48 4 p"
proof -
  obtain p1 where w1: "write_data 16 (le_bytes 8 (StorageEngine.next_page_id st)) p = Inr p1"
    using write_data_ok [of 16 "le_bytes 8 (StorageEngine.next_page_id st)" p]
    by (auto simp add: DATA_SIZE_val)
  obtain p2 where w2: "write_data 24 (le_bytes 8 (free_list_head st)) p1 = Inr p2"
    using write_data_ok [of 24 "le_bytes 8 (free_list_head st)" p1]
    by (auto simp add: DATA_SIZE_val)
  obtain p3 where w3: "write_data 32 (le_bytes 8 (sys_tables_root st)) p2 = Inr p3"
    using write_data_ok [of 32 "le_bytes 8 (sys_tables_root st)" p2]
    by (auto simp add: DATA_SIZE_val)
  obtain p4 where w4: "write_data 40 (le_bytes 8 (sys_fields_root st)) p3 = Inr p4"
    using write_data_ok [of 40 "le_bytes 8 (sys_fields_root st)" p3]
    by (auto simp add: DATA_SIZE_val)
  obtain p5 where w5: "write_data 60 (le_bytes 8 (sys_indexes_root st)) p4 = Inr p5"
    using write_data_ok [of 60 "le_bytes 8 (sys_indexes_root st)" p4]
    by (auto simp add: DATA_SIZE_val)
  have l1: "length (data p1) = DATA_SIZE"
    using write_data_length [OF w1 assms] by (simp add: DATA_SIZE_val)
  have l2: "length (data p2) = DATA_SIZE"
    using write_data_length [OF w2 l1] by (simp add: DATA_SIZE_val)
  have l3: "length (data p3) = DATA_SIZE"
    using write_data_length [OF w3 l2] by (simp add: DATA_SIZE_val)
  have l4: "length (data p4) = DATA_SIZE"
    using write_data_length [OF w4 l3] by (simp add: DATA_SIZE_val)
  have "read_data 48 4 p5 = read_data 48 4 p4"
    by (rule write_data_read_data_disjoint [OF w5 l4]) (simp_all add: DATA_SIZE_val)
  also have "\<dots> = read_data 48 4 p3"
    by (rule write_data_read_data_disjoint [OF w4 l3]) (simp_all add: DATA_SIZE_val)
  also have "\<dots> = read_data 48 4 p2"
    by (rule write_data_read_data_disjoint [OF w3 l2]) (simp_all add: DATA_SIZE_val)
  also have "\<dots> = read_data 48 4 p1"
    by (rule write_data_read_data_disjoint [OF w2 l1]) (simp_all add: DATA_SIZE_val)
  also have "\<dots> = read_data 48 4 p"
    by (rule write_data_read_data_disjoint [OF w1 assms]) (simp_all add: DATA_SIZE_val)
  finally have "read_data 48 4 p5 = read_data 48 4 p" .
  moreover have "write_metadata_fields st p = Inr p5"
    by (simp add: write_metadata_fields_def w1 w2 w3 w4 w5)
  ultimately show ?thesis by blast
qed

lemma save_metadata_keeps_version:
  assumes c: "map_of (page_cache st) 0 = Some p" and l: "length (data p) = DATA_SIZE"
  shows "fst (save_metadata st) = Inr ()
    \<and> (\<exists>q. fst (read_page 0 (snd (save_metadata st))) = Inr q \<and> read_u32 48 q = read_u32 48 p)"
proof -
  obtain p' where w: "write_metadata_fields st p = Inr p'"
    and r: "read_data 48 4 p' = read_data 48 4 p"
    using write_metadata_fields_ok [OF l] by blast
  have s: "save_metadata st = (Inr (), write_page 0 p' st)"
    by (simp add: save_metadata_def read_page_cached [OF c] w)
  obtain q where q: "map_of (page_cache (write_page 0 p' st)) 0 = Some q" and dq: "data q = data p'"
    using write_page_data [of 0 p' st] by auto
  have "read_u32 48 q = read_u32 48 p'" using dq by (rule read_u32_data)
  also have "\<dots> = read_u32 48 p" using r by (simp add: read_u32_def)
  finally have "read_u32 48 q = read_u32 48 p" .
  then show ?thesis using s read_page_cached [OF q] by simp
qed

lemma c7_page0_facts:
  "is_valid (header (c7_page0 ver))" "length (data (c7_page0 ver)) = DATA_SIZE"
  "read_data 0 16 (c7_page0 ver) = Inr db_header" "read_u32 48 (c7_page0 ver) = Inr ver"
  by (simp_all add: c7_page0_def Page_new_def is_valid_def PageHeader_default_def DATA_SIZE_val
      read_data_def read_u32_def)

text \<open>
  The version-2 file \<open>c7_file 2\<close> is opened with \<open>sys_indexes_root = 0\<close>; after the next
  \<open>save_metadata\<close> the version field of page 0 still reads 2, in the cache and in the
  file after a flush.
\<close>

lemma v2_database_stays_version_2:
  "map_sum id sys_indexes_root (StorageEngine_new (Some (c7_file 2)) 64 0) = Inr 0
   \<and> fst (save_metadata c7_db) = Inr ()
   \<and> bind_err (fst (read_page 0 c7_saved)) (read_u32 48) = Inr 2
   \<and> map_option (read_u32 48) (file_pages (flush_all c7_saved) 0) = Some (Inr 2)"
  by (simp add: c7_saved_def c7_db_def c7_file_def c7_page0_def storage_eval evict_page_def
      flush_one_def cong: let_weak_cong)

text \<open>
  In general: an existing file whose page 0 has a valid magic number, the database
  signature and version 2 is opened, with \<open>sys_indexes_root\<close> taken as 0; a following
  \<open>save_metadata\<close> succeeds and leaves the version field of page 0 at 2. A file whose
  version is neither 2 nor 3 is refused when opened.
\<close>

lemma open_accepts_v2_and_save_keeps_version:
  assumes f0: "existing 0 = Some p0" and valid: "is_valid (header p0)"
    and len: "length (data p0) = DATA_SIZE" and sig: "read_data 0 16 p0 = Inr db_header"
    and ver: "read_u32 48 p0 = Inr ver"
  shows "(ver = 2 \<longrightarrow>
           (\<exists>st. StorageEngine_new (Some existing) csize now = Inr st
                \<and> sys_indexes_root st = 0
                \<and> fst (save_metadata st) = Inr ()
                \<and> bind_err (fst (read_page 0 (snd (save_metadata st)))) (read_u32 48) = Inr 2))
       \<and> (ver \<noteq> 2 \<and> ver \<noteq> 3 \<longrightarrow>
            StorageEngine_new (Some existing) csize now = Inl (IncompatibleDatabaseVersion ver))"
proof -
  define st0 where "st0 =
    \<lparr>file_pages = existing, StorageEngine.next_page_id = 1, free_list_head = 0, sys_tables_root = 0,
     sys_fields_root = 0, sys_indexes_root = 0, cache_size = csize,
     page_cache = [], dirty_pages = []\<rparr>"
  define st1 where "st1 = st0\<lparr>page_cache := [(0, p0)]\<rparr>"
  have new: "StorageEngine_new (Some existing) csize now =
      (case load_metadata st0 of (Inl e, s) \<Rightarrow> Inl e | (Inr u, s) \<Rightarrow> Inr s)"
    by (simp add: StorageEngine_new_def st0_def)
  have rp: "read_page 0 st0 = (Inr p0, st1)"
    using f0 valid by (simp add: read_page_def st0_def st1_def evict_page_def cache_store_def)
  obtain v1 v2 v3 v4 where
    r: "read_u64 16 p0 = Inr v1" "read_u64 24 p0 = Inr v2" "read_u64 32 p0 = Inr v3"
       "read_u64 40 p0 = Inr v4"
    by (simp add: read_u64_def read_data_def DATA_SIZE_val)
  define st5 where "st5 = st1\<lparr>StorageEngine.next_page_id := v1, free_list_head := v2,
    sys_tables_root := v3, sys_fields_root := v4\<rparr>"
  have lm2: "load_metadata st0 = (Inr (), st5\<lparr>sys_indexes_root := 0\<rparr>)" if "ver = 2"
    using that by (simp add: load_metadata_def rp sig r ver st5_def Let_def)
  have lmx: "load_metadata st0 = (Inl (IncompatibleDatabaseVersion ver), st5)"
    if "ver \<noteq> 2 \<and> ver \<noteq> 3"
    using that by (simp add: load_metadata_def rp sig r ver st5_def Let_def)
  show ?thesis
  proof (intro conjI impI)
    assume v: "ver = 2"
    let ?st = "st5\<lparr>sys_indexes_root := 0\<rparr>"
    have c: "map_of (page_cache ?st) 0 = Some p0" by (simp add: st5_def st1_def)
    from save_metadata_keeps_version [OF c len] ver v
    have "fst (save_metadata ?st) = Inr ()"
      and "bind_err (fst (read_page 0 (snd (save_metadata ?st)))) (read_u32 48) = Inr 2"
      by auto
    moreover have "StorageEngine_new (Some existing) csize now = Inr ?st"
      by (simp add: new lm2 [OF v])
    ultimately show "\<exists>st. StorageEngine_new (Some existing) csize now = Inr st
        \<and> sys_indexes_root st = 0
        \<and> fst (save_metadata st) = Inr ()
        \<and> bind_err (fst (read_page 0 (snd (save_metadata st)))) (read_u32 48) = Inr 2"
      by simp
  next
    assume "ver \<noteq> 2 \<and> ver \<noteq> 3"
    then show "StorageEngine_new (Some existing) csize now = Inl (IncompatibleDatabaseVersion ver)"
      by (simp add: new lmx)
  qed
qed

lemma open_accepts_v2_and_refuses_v9:
  "(\<exists>st. StorageEngine_new (Some (c7_file 2)) 64 0 = Inr st
        \<and> sys_indexes_root st = 0
        \<and> fst (save_metadata st) = Inr ()
        \<and> bind_err (fst (read_page 0 (snd (save_metadata st)))) (read_u32 48) = Inr 2)
   \<and> StorageEngine_new (Some (c7_file 9)) 64 0 = Inl (IncompatibleDatabaseVersion 9)"
proof -
  have f: "c7_file ver 0 = Some (c7_page0 ver)" for ver
    by (simp add: c7_file_def)
  show ?thesis
    using
      open_accepts_v2_and_save_keeps_version
        [of "c7_file 2" "c7_page0 2" 2 64 0, OF f [of 2] c7_page0_facts [of 2]]
      open_accepts_v2_and_save_keeps_version
        [of "c7_file 9" "c7_page0 9" 9 64 0, OF f [of 9] c7_page0_facts [of 9]]
    by simp
qed

text \<open>
  C7 (the code departs from the claim). The version-2 file \<open>c7_file 2\<close>, with the
  catalog roots 1 and 2, is opened: it is accepted and \<open>sys_indexes_root\<close> is 0. The
  upgrade creates the table \<open>_sys_indexes\<close>, whose root is page 3, and
  \<open>set_sys_indexes_root\<close> saves the metadata. In the file that the engine leaves
  behind, page 0 holds the root 3 at offset 60, but its version field still reads 2 and
  not 3: \<open>save_metadata\<close> never writes the version. Opening that file again takes the
  version-2 branch of \<open>load_metadata\<close>, so \<open>sys_indexes_root\<close> is 0 again and the
  saved root is lost.
\<close>

theorem v2_upgrade_is_lost:
  "map_sum id sys_indexes_root (StorageEngine_new (Some (c7_file 2)) 64 0) = Inr 0
   \<and> sys_tables_root c7_db = 1 \<and> sys_fields_root c7_db = 2
   \<and> map_sum id table_name
        (Table_new ''_sys_indexes'' [] 0 c7_db :: error + (u8 \<times> u8 list, u8, int) Table)
       = Inr ''_sys_indexes''
   \<and> PersistentBTreeIndex.root_page_id (Table.index c7_sys_indexes) = 3
   \<and> fst (set_sys_indexes_root 3 (storage c7_sys_indexes)) = Inr ()
   \<and> sys_indexes_root c7_upgraded = 3
   \<and> map_option (read_u64 60) (file_pages c7_closed 0) = Some (Inr 3)
   \<and> map_option (read_u32 48) (file_pages c7_closed 0) = Some (Inr 2)
   \<and> map_sum id sys_indexes_root (StorageEngine_new (Some (file_pages c7_closed)) 64 0) = Inr 0"
  by (simp add: c7_closed_def c7_upgraded_def c7_sys_indexes_def set_sys_indexes_root_def
      c7_db_def c7_file_def c7_page0_def table_eval btree_eval storage_eval evict_page_def
      flush_one_def cong: let_weak_cong)

section \<open>Table operations (C10, C9, C4)\<close>

text \<open>
  C10, counterexample. A table is opened on an index whose root points to page 77,
  which cannot be loaded. The lookup of key 3 in the primary index descends to that
  page and fails; the lookup is outside the \<open>try\<close> block of \<open>find\<close>, so \<open>Table_find\<close>
  fails with the same error: it does propagate an error of the storage.
\<close>

theorem Table_find_propagates_index_errors:
  "Table_new ''blobs'' c10_nodes 2 fresh_db = Inr c10_broken
   \<and> fst (Table_find blob_codec 3 c10_broken) = Inl IndexFailure"
  by (simp add: c10_broken_def c10_nodes_def table_eval btree_eval count_entries_def)

text \<open>
  C10, as amended. \<open>Table_find\<close> fails exactly when the lookup in the primary index
  fails, and with the same error. When the lookup returns, \<open>Table_find\<close> returns
  without an error: nothing for an absent key; for a present key nothing as well when
  the page of the record cannot be read or its payload cannot be deserialized, and the
  record otherwise.
\<close>

theorem Table_find_cases:
  "fst (Table_find q key tb) =
     (case BTree_find (Table.index tb) key of
        Inl e \<Rightarrow> Inl e
      | Inr None \<Rightarrow> Inr None
      | Inr (Some rid) \<Rightarrow>
          (case fst (read_page (RecordId.page_id rid) (storage tb)) of
             Inl e \<Rightarrow> Inr None
           | Inr page \<Rightarrow>
               (case deserialize q (data page) of
                  Inl e \<Rightarrow> Inr None
                | Inr record \<Rightarrow> Inr (Some record))))"
  by (auto simp add: Table_find_def load_record_def on_table_storage_def bindS_def returnS_def
      split: option.splits sum.splits prod.splits)

lemma c10_find_1: "BTree_find (Table.index c10_tb) 1 = Inr (Some \<lparr>RecordId.page_id = 5, slot = 0\<rparr>)"
  by (simp add: c10_tb_def btree_eval)

lemma c10_find_2: "BTree_find (Table.index c10_tb) 2 = Inr None"
  by (simp add: c10_tb_def btree_eval)

lemma c10_find_4: "BTree_find (Table.index c10_broken) 4 = Inl IndexFailure"
  by (simp add: c10_broken_def c10_nodes_def btree_eval)

lemma c10_read: "fst (read_page 5 (storage c10_tb)) = Inl (CannotReadPage 5)"
  by (simp add: c10_tb_def fresh_db_def storage_eval cong: let_weak_cong)

lemma c10_corrupt_facts:
  "BTree_find (Table.index c10_corrupt) 1 = Inr (Some \<lparr>RecordId.page_id = 5, slot = 0\<rparr>)"
  "fst (read_page 5 (storage c10_corrupt)) = Inr c10_page"
  "deserialize blob_codec (data c10_page) = Inl NotEnoughData"
  by (simp_all add: c10_corrupt_def c10_tb_def c10_page_def blob_codec_def fresh_db_def
      table_eval storage_eval btree_eval evict_page_def cong: let_weak_cong)

lemma c10_found: "fst (Table_find blob_codec 1 c4_tb) = Inr (Some c4_rec)"
  by (simp add: c4_tb_def c9_tb_def c4_rec_def blob_codec_def fresh_db_def
      table_eval storage_eval btree_eval cong: let_weak_cong)

theorem Table_find_cases_witness:
  "BTree_find (Table.index c10_tb) 1 = Inr (Some \<lparr>RecordId.page_id = 5, slot = 0\<rparr>)
   \<and> fst (read_page 5 (storage c10_tb)) = Inl (CannotReadPage 5)
   \<and> fst (Table_find blob_codec 1 c10_tb) = Inr None
   \<and> BTree_find (Table.index c10_corrupt) 1 = Inr (Some \<lparr>RecordId.page_id = 5, slot = 0\<rparr>)
   \<and> fst (read_page 5 (storage c10_corrupt)) = Inr c10_page
   \<and> deserialize blob_codec (data c10_page) = Inl NotEnoughData
   \<and> fst (Table_find blob_codec 1 c10_corrupt) = Inr None
   \<and> BTree_find (Table.index c10_tb) 2 = Inr None
   \<and> fst (Table_find blob_codec 2 c10_tb) = Inr None
   \<and> BTree_find (Table.index c10_broken) 4 = Inl IndexFailure
   \<and> fst (Table_find blob_codec 4 c10_broken) = Inl IndexFailure
   \<and> fst (Table_find blob_codec 1 c4_tb) = Inr (Some c4_rec)"
  using Table_find_cases [of blob_codec 1 c10_tb] Table_find_cases [of blob_codec 2 c10_tb]
    Table_find_cases [of blob_codec 4 c10_broken] Table_find_cases [of blob_codec 1 c10_corrupt]
    c10_find_1 c10_find_2 c10_find_4 c10_read c10_corrupt_facts c10_found
  by simp

text \<open>
  C9. When the key is not in the primary index, the allocation of the DATA page
  succeeds and the allocated page, read back, cannot fit the serialized record,
  \<open>Table_insert\<close> fails with \<open>RecordTooLarge\<close>, and the table is as before (primary
  index, secondary indexes, count) except for its storage engine, which is in the
  state after the allocation and the read: the page stays allocated, nothing is
  written to it and it is not deallocated.
\<close>

theorem Table_insert_too_large:
  assumes "BTree_contains (Table.index tb) (get_primary_key q record) = Inr False"
    and "allocate_page DATA (storage tb) = (Inr pid, st1)"
    and "read_page pid st1 = (Inr page, st2)"
    and "\<not> can_fit page (length (serialize q record))"
  shows "Table_insert q record tb = (Inl RecordTooLarge, tb\<lparr>storage := st2\<rparr>)"
  using assms
  by (simp add: Table_insert_def Let_def bindS_def throwS_def on_table_storage_def)

lemma c9_tb_index:
  "Table.index c9_tb =
     \<lparr>PersistentBTreeIndex.root_page_id = 1, tree_size = 0,
      node_cache = [(1, \<lparr>Node.page_id = 1, keys = [], vals = [], children_ids = [],
                          is_leaf = True, next_page_id = 0, prev_page_id = 0\<rparr>)]\<rparr>"
  by (simp add: c9_tb_def fresh_db_def table_eval storage_eval btree_eval cong: let_weak_cong)

lemma c9_contains:
  "BTree_contains (Table.index c9_tb) (get_primary_key blob_codec c9_rec) = Inr False"
  by (simp add: c9_tb_index blob_codec_def c9_rec_def btree_eval)

lemma c9_allocate: "allocate_page DATA (storage c9_tb) = (Inr 2, c9_st1)"
  by (simp add: prod_eq_iff c9_st1_def)
    (simp add: c9_tb_def fresh_db_def table_eval storage_eval btree_eval cong: let_weak_cong)

lemma c9_read: "read_page 2 c9_st1 = (Inr (Page_new 2 DATA), c9_st2)"
  by (simp add: prod_eq_iff c9_st2_def)
    (simp add: c9_st1_def c9_tb_def fresh_db_def table_eval storage_eval btree_eval
      cong: let_weak_cong)

lemma c9_length: "length (serialize blob_codec c9_rec) = 4105"
  by (simp add: blob_codec_def c9_rec_def)

lemma c9_no_fit: "\<not> can_fit (Page_new 2 DATA) (length (serialize blob_codec c9_rec))"
  by (simp add: c9_length can_fit_def available_space_def Page_new_def PageHeader_default_def
      DATA_SIZE_val HEADER_SIZE_def)

theorem Table_insert_too_large_witness:
  "length (serialize blob_codec c9_rec) = 4105
   \<and> BTree_contains (Table.index c9_tb) (get_primary_key blob_codec c9_rec) = Inr False
   \<and> allocate_page DATA (storage c9_tb) = (Inr 2, c9_st1)
   \<and> read_page 2 c9_st1 = (Inr (Page_new 2 DATA), c9_st2)
   \<and> Table_insert blob_codec c9_rec c9_tb = (Inl RecordTooLarge, c9_tb\<lparr>storage := c9_st2\<rparr>)"
  using Table_insert_too_large [OF c9_contains c9_allocate c9_read c9_no_fit]
    c9_length c9_contains c9_allocate c9_read
  by simp

lemma c4_insert: "fst (Table_insert blob_codec c4_rec c9_tb) = Inr ()"
  by (simp add: c9_tb_def c4_rec_def blob_codec_def fresh_db_def table_eval storage_eval
      btree_eval cong: let_weak_cong)

text \<open>
  C4 (the code departs from the claim). A record of 2100 serialized bytes is inserted
  and then updated with a record of the same key and the same size. The update fails
  with \<open>UpdatedRecordTooLarge\<close>: \<open>can_fit\<close> is asked of the page as loaded, whose
  free-space offset still counts the old record, so only 4032 - 2100 = 1932 bytes
  count as available, although the new record is written at offset 0.
\<close>

theorem Table_update_same_size_fails:
  "fst (Table_insert blob_codec c4_rec c9_tb) = Inr ()
   \<and> length (serialize blob_codec c4_rec) = 2100
   \<and> length (serialize blob_codec c4_rec') = 2100
   \<and> fst (Table_update blob_codec c4_rec' c4_tb) = Inl UpdatedRecordTooLarge"
  by (simp add: c4_tb_def c9_tb_def c4_rec_def c4_rec'_def blob_codec_def fresh_db_def
      table_eval storage_eval btree_eval cong: let_weak_cong)

section \<open>Range queries and the multi-value index (C6)\<close>

lemma depth_child: "c \<in> set ts \<Longrightarrow> depth c \<le> fold max (map depth ts) 0"
proof -
  have "x \<in> set xs \<Longrightarrow> x \<le> fold max xs (a::nat)" for x xs a
  proof (induction xs arbitrary: a)
    case Nil then show ?case by simp
  next
    case (Cons y ys)
    have m: "a \<le> fold max ys a" for a :: nat
      by (induction ys arbitrary: a) (auto intro: order_trans [OF max.cobounded2])
    from Cons show ?case
      using m [of "max y a"] by (auto intro: order_trans)
  qed
  then show "c \<in> set ts \<Longrightarrow> depth c \<le> fold max (map depth ts) 0"
    by (metis imageI set_map)
qed

lemma find_leaf_for_key_route:
  assumes "shape t bt" and "separators bt" and "depth bt \<le> fuel"
  shows "\<exists>pre L post. leaves bt = pre @ L # post
           \<and> find_leaf_for_key fuel t (node_id bt) key = Inr (fst L)
           \<and> (\<forall>l \<in> set pre. \<forall>e \<in> set (snd l). fst e < key)"
  using assms
proof (induction bt arbitrary: fuel)
  case (Lf p es)
  then obtain f where f: "fuel = Suc f" by (cases fuel) auto
  from Lf.prems(1) have "find_leaf_for_key (Suc f) t p key = Inr p"
    by (auto simp add: node_at_def split: option.splits)
  then show ?case using f by (intro exI [of _ "[]"] exI [of _ "(p, es)"]) simp
next
  case (Nd p ks ts)
  then obtain f where f: "fuel = Suc f" and df: "fold max (map depth ts) 0 \<le> f"
    by (cases fuel) auto
  from Nd.prems(1) obtain n where n: "map_of (node_cache t) p = Some n" "\<not> is_leaf n"
    "keys n = ks" "children_ids n = map node_id ts" and p0: "p \<noteq> 0"
    and len: "length ts = length ks + 1" and sh: "\<forall>c \<in> set ts. shape t c"
    by (auto split: option.splits)
  define i where "i = length (takeWhile (\<lambda>k. key \<ge> k) ks)"
  have i_le: "i \<le> length ks" by (simp add: i_def length_takeWhile_le)
  then have i_lt: "i < length ts" using len by simp
  let ?c = "ts ! i"
  have c_in: "?c \<in> set ts" using i_lt by simp
  have step: "find_leaf_for_key fuel t p key = find_leaf_for_key f t (node_id ?c) key"
    using n p0 i_lt by (simp add: f node_at_def i_def Let_def)
  from Nd.prems(2) have sep_c: "separators ?c" using c_in by simp
  have "depth ?c \<le> f" using depth_child [OF c_in] df by simp
  from Nd.IH [OF c_in _ sep_c this] sh c_in
  obtain pre1 L post1 where ih: "leaves ?c = pre1 @ L # post1"
    "find_leaf_for_key f t (node_id ?c) key = Inr (fst L)"
    "\<forall>l \<in> set pre1. \<forall>e \<in> set (snd l). fst e < key"
    by blast
  have ts: "ts = take i ts @ ?c # drop (Suc i) ts"
    using i_lt by (simp add: id_take_nth_drop)
  have lv: "leaves (Nd p ks ts)
      = (concat (map leaves (take i ts)) @ pre1) @ L # (post1 @ concat (map leaves (drop (Suc i) ts)))"
    using ih(1) by (subst ts) simp
  have left: "fst e < key" if l: "l \<in> set (concat (map leaves (take i ts)))" and e: "e \<in> set (snd l)"
    for l e
  proof -
    from l obtain c where c: "c \<in> set (take i ts)" "l \<in> set (leaves c)" by auto
    then obtain j where j: "j < i" "c = ts ! j"
      by (metis in_set_conv_nth length_take min_less_iff_conj nth_take)
    have "fst e \<in> set (map fst (entries c))"
      using c(2) e by (auto simp add: entries_def)
    moreover from Nd.prems(2)
    have "\<forall>k \<in> set (map fst (entries (ts ! j))). j < length ks \<longrightarrow> k < ks ! j"
      using j(1) i_lt by simp
    ultimately have lt: "fst e < ks ! j" using j i_le unfolding j(2) by (meson less_le_trans)
    have "ks ! j \<in> set (takeWhile (\<lambda>k. key \<ge> k) ks)"
      using j(1) by (metis i_def nth_mem takeWhile_nth)
    then have "ks ! j \<le> key" by (auto dest: set_takeWhileD)
    with lt show ?thesis by simp
  qed
  have all: "\<forall>l \<in> set (concat (map leaves (take i ts)) @ pre1). \<forall>e \<in> set (snd l). fst e < key"
  proof (intro ballI)
    fix l e
    assume l: "l \<in> set (concat (map leaves (take i ts)) @ pre1)" and e: "e \<in> set (snd l)"
    from l have "l \<in> set (concat (map leaves (take i ts))) \<or> l \<in> set pre1"
      by (simp del: set_concat)
    then show "fst e < key" using left [OF _ e] ih(3) e by blast
  qed
  have "find_leaf_for_key fuel t (node_id (Nd p ks ts)) key = Inr (fst L)"
    using step ih(2) by simp
  with lv all show ?case by blast
qed

lemma collect_range_sorted:
  assumes "sorted (map fst es)" and "mn \<le> mx"
  shows "collect_range mn mx es acc
    = (acc @ map snd (filter (\<lambda>e. mn \<le> fst e \<and> fst e \<le> mx) es), \<exists>e \<in> set es. mx < fst e)"
  using assms(1)
proof (induction es arbitrary: acc)
  case Nil
  show ?case by simp
next
  case (Cons e es)
  obtain k v where e: "e = (k, v)" by (cases e)
  from Cons.prems have s: "sorted (map fst es)" and ge: "\<forall>x \<in> set es. k \<le> fst x"
    by (auto simp add: e)
  show ?case
  proof (cases "k < mn")
    case True
    with assms(2) have "\<not> mx < k" "\<not> mn \<le> k" by auto
    with True Cons.IH [OF s] show ?thesis by (simp add: e)
  next
    case False
    show ?thesis
    proof (cases "mx < k")
      case True
      with ge have "\<forall>x \<in> set es. mx < fst x" by (meson less_le_trans)
      then have "filter (\<lambda>e. mn \<le> fst e \<and> fst e \<le> mx) es = []"
        by (auto simp add: filter_empty_conv)
      moreover from True have "\<not> k \<le> mx" by simp
      ultimately show ?thesis using True False by (simp add: e)
    next
      case F2: False
      with False have "mn \<le> k" "k \<le> mx" by (simp_all add: not_less)
      with False F2 Cons.IH [OF s] show ?thesis by (simp add: e)
    qed
  qed
qed

lemma chain_suffix: "chain t (pre @ ls) nxt \<Longrightarrow> chain t ls nxt"
  by (induction pre) auto

lemma zip_fst_snd: "zip (map fst es) (map snd es) = es"
  by (induction es) auto

lemma range_walk_chain:
  assumes "chain t ls 0" and "sorted (map fst (concat (map snd ls)))" and "length ls \<le> fuel"
    and "mn \<le> mx"
  shows "range_walk fuel t (case ls of [] \<Rightarrow> 0 | l # ls1 \<Rightarrow> fst l) mn mx acc
    = Inr (acc @ map snd (filter (\<lambda>e. mn \<le> fst e \<and> fst e \<le> mx) (concat (map snd ls))))"
  using assms(1-3)
proof (induction ls arbitrary: fuel acc)
  case Nil
  show ?case by (cases fuel) simp_all
next
  case (Cons l ls)
  then obtain f where f: "fuel = Suc f" and lf: "length ls \<le> f" by (cases fuel) auto
  from Cons.prems(1) obtain n where n: "map_of (node_cache t) (fst l) = Some n"
    "keys n = map fst (snd l)" "vals n = map snd (snd l)"
    "Node.next_page_id n = (case ls of [] \<Rightarrow> 0 | l1 # ls1 \<Rightarrow> fst l1)"
    and l0: "fst l \<noteq> 0" and ch: "chain t ls 0"
    by (auto split: option.splits)
  from Cons.prems(2) have s1: "sorted (map fst (snd l))"
    and s2: "sorted (map fst (concat (map snd ls)))"
    and s12: "\<forall>x \<in> set (snd l). \<forall>y \<in> set (concat (map snd ls)). fst x \<le> fst y"
    by (auto simp add: sorted_append)
  let ?inr = "\<lambda>e. mn \<le> fst e \<and> fst e \<le> mx"
  note cr = collect_range_sorted [OF s1 assms(4), of acc]
  show ?case
  proof (cases "\<exists>e \<in> set (snd l). mx < fst e")
    case True
    then obtain e where "e \<in> set (snd l)" "mx < fst e" by blast
    with s12 have "\<forall>y \<in> set (concat (map snd ls)). mx < fst y" by (meson less_le_trans)
    then have "filter ?inr (concat (map snd ls)) = []"
      by (auto simp add: filter_empty_conv simp del: set_concat)
    with True cr n l0 show ?thesis
      by (simp add: f node_at_def zip_fst_snd)
  next
    case False
    with cr n l0 have "range_walk fuel t (fst l) mn mx acc
      = range_walk f t (case ls of [] \<Rightarrow> 0 | l1 # ls1 \<Rightarrow> fst l1) mn mx
          (acc @ map snd (filter ?inr (snd l)))"
      by (simp add: f node_at_def zip_fst_snd)
    with Cons.IH [OF ch s2 lf] show ?thesis by simp
  qed
qed

lemma shape_ids: "shape t bt \<Longrightarrow> set (ids bt) \<subseteq> fst ` set (node_cache t)"
proof (induction bt)
  case (Lf p es)
  then show ?case by (auto split: option.splits dest: map_of_SomeD intro: rev_image_eqI)
next
  case (Nd p ks ts)
  then have "p \<in> fst ` set (node_cache t)"
    by (auto split: option.splits dest: map_of_SomeD intro: rev_image_eqI)
  moreover have "set (ids c) \<subseteq> fst ` set (node_cache t)" if "c \<in> set ts" for c
    using Nd that by auto
  ultimately show ?case by auto
qed

lemma distinct_subset_length:
  assumes "distinct xs" and "set xs \<subseteq> fst ` set c"
  shows "length xs \<le> length c"
proof -
  have "length xs = card (set xs)" using assms(1) by (simp add: distinct_card)
  also have "\<dots> \<le> card (fst ` set c)" using assms(2) by (simp add: card_mono)
  also have "\<dots> \<le> card (set c)" by (simp add: card_image_le)
  also have "\<dots> \<le> length c" by (rule card_length)
  finally show ?thesis .
qed

lemma sum_list_ge_member: "(x::nat) \<in> set xs \<Longrightarrow> x \<le> sum_list xs"
  by (induction xs) auto

lemma fold_max_le: "(\<And>x. x \<in> set xs \<Longrightarrow> x \<le> b) \<Longrightarrow> a \<le> b \<Longrightarrow> fold max xs (a::nat) \<le> b"
  by (induction xs arbitrary: a) auto

lemma depth_le_ids: "depth bt \<le> length (ids bt)"
proof (induction bt)
  case (Lf p es)
  show ?case by simp
next
  case (Nd p ks ts)
  have "fold max (map depth ts) 0 \<le> length (concat (map ids ts))"
  proof (rule fold_max_le)
    fix x assume "x \<in> set (map depth ts)"
    then obtain c where c: "c \<in> set ts" "x = depth c" by auto
    have "length (ids c) \<le> sum_list (map (length \<circ> ids) ts)"
      using c(1) by (intro sum_list_ge_member) auto
    with Nd [OF c(1)] c(2) show "x \<le> length (concat (map ids ts))"
      by (simp add: length_concat comp_def)
  qed simp
  then show ?case by simp
qed

lemma leaves_le_ids: "length (leaves bt) \<le> length (ids bt)"
proof (induction bt)
  case (Lf p es)
  show ?case by simp
next
  case (Nd p ks ts)
  have "sum_list (map (length \<circ> leaves) ts) \<le> sum_list (map (length \<circ> ids) ts)"
    using Nd by (intro sum_list_mono) auto
  then show ?case by (simp add: length_concat comp_def)
qed

lemma range_query_exact:
  assumes wf: "bptree_invariant t bt" and mm: "mn \<le> mx"
  shows "BTree_range_query t mn mx
    = Inr (map snd (filter (\<lambda>e. mn \<le> fst e \<and> fst e \<le> mx) (entries bt)))"
proof -
  let ?fuel = "Suc (length (node_cache t))"
  let ?inr = "\<lambda>e. mn \<le> fst e \<and> fst e \<le> mx"
  from wf have root: "PersistentBTreeIndex.root_page_id t = node_id bt" and sh: "shape t bt"
    and sep: "separators bt" and ch: "chain t (leaves bt) 0"
    and so: "sorted (map fst (entries bt))" and di: "distinct (ids bt)"
    by (simp_all add: bptree_invariant_def)
  have bound: "length (ids bt) \<le> length (node_cache t)"
    using distinct_subset_length [OF di shape_ids [OF sh]] .
  have d: "depth bt \<le> ?fuel" using depth_le_ids [of bt] bound by simp
  from find_leaf_for_key_route [OF sh sep d, of mn]
  obtain pre L post where lv: "leaves bt = pre @ L # post"
    and fl: "find_leaf_for_key ?fuel t (node_id bt) mn = Inr (fst L)"
    and lt: "\<forall>l \<in> set pre. \<forall>e \<in> set (snd l). fst e < mn"
    by blast
  have r0: "node_id bt \<noteq> 0" using sh by (cases bt) auto
  have ch2: "chain t (L # post) 0" using ch lv chain_suffix by metis
  then have l0: "fst L \<noteq> 0" by simp
  have en: "entries bt = concat (map snd pre) @ concat (map snd (L # post))"
    by (simp add: entries_def lv)
  have "map fst (entries bt)
      = map fst (concat (map snd pre)) @ map fst (concat (map snd (L # post)))"
    unfolding en by (rule map_append)
  with so have so2: "sorted (map fst (concat (map snd (L # post))))"
    by (simp only: sorted_append)
  have len: "length (L # post) \<le> ?fuel"
    using leaves_le_ids [of bt] bound by (simp add: lv)
  have "\<not> ?inr e" if "e \<in> set (concat (map snd pre))" for e
  proof -
    from that obtain l where "l \<in> set pre" "e \<in> set (snd l)" by auto
    with lt have "fst e < mn" by blast
    then show ?thesis by (simp add: not_le)
  qed
  then have "filter ?inr (concat (map snd pre)) = []"
    by (simp add: filter_empty_conv del: set_concat)
  then have fe: "filter ?inr (entries bt) = filter ?inr (concat (map snd (L # post)))"
    unfolding en by simp
  have "BTree_range_query t mn mx = range_walk ?fuel t (fst L) mn mx []"
    using r0 l0 fl by (simp add: BTree_range_query_def range_query_helper_def root)
  also have "\<dots> = Inr (map snd (filter ?inr (concat (map snd (L # post)))))"
    using range_walk_chain [OF ch2 so2 len mm, of "[]"] by simp
  finally show ?thesis by (simp only: fe)
qed

lemma composite_range:
  "CompositeKey v 0 \<le> k \<and> k \<le> CompositeKey v (- 1) \<longleftrightarrow> field_value k = v"
  by (cases k) (auto simp add: less_eq_CompositeKey_def less_CompositeKey_def not_less)

lemma composite_bounds: "CompositeKey v 0 \<le> CompositeKey v (- 1)"
  by (simp add: less_eq_CompositeKey_def less_CompositeKey_def)

text \<open>
  For a multi-value index whose B+Tree is well formed, \<open>find v\<close>, the range scan from
  \<open>(v, 0)\<close> to \<open>(v, 2^64 - 1)\<close>, returns the record ids of exactly the index entries
  whose field value is \<open>v\<close>, in key order, and \<open>count v\<close> is their number.
\<close>

lemma MultiValue_find_exact:
  assumes "bptree_invariant (PersistentMultiValueSecondaryIndex.index idx) bt"
  shows "MultiValue_find idx v
           = Inr (map snd (filter (\<lambda>e. field_value (fst e) = v) (entries bt)))
       \<and> MultiValue_count idx v
           = Inr (length (filter (\<lambda>e. field_value (fst e) = v) (entries bt)))"
proof -
  have "MultiValue_find idx v
      = Inr (map snd (filter (\<lambda>e. CompositeKey v 0 \<le> fst e \<and> fst e \<le> CompositeKey v (- 1))
               (entries bt)))"
    using range_query_exact [OF assms composite_bounds]
    by (simp add: MultiValue_find_def Let_def)
  then have f: "MultiValue_find idx v
      = Inr (map snd (filter (\<lambda>e. field_value (fst e) = v) (entries bt)))"
    by (simp only: composite_range)
  then show ?thesis by (simp add: MultiValue_count_def)
qed

lemmas multi_eval =
  MultiValue_insert_def MultiValue_find_def MultiValue_count_def MultiValue_remove_def
  on_multi_index_def less_CompositeKey_def less_eq_CompositeKey_def

lemma c6_idx_built: "fst c6_s4 = c6_idx"
  by (simp add: c6_idx_def c6_empty_def c6_s1_def c6_s2_def c6_s3_def c6_s4_def c6_rid_def
      fresh_db_def multi_eval storage_eval btree_eval cong: let_weak_cong)

lemma c6_invariant: "bptree_invariant (PersistentMultiValueSecondaryIndex.index c6_idx) c6_bt"
  by (simp add: bptree_invariant_def c6_idx_def c6_bt_def entries_def
      less_eq_CompositeKey_def less_CompositeKey_def All_less_Suc)

lemma MultiValue_find_on_built_index:
  "fst c6_s4 = c6_idx
   \<and> bptree_invariant (PersistentMultiValueSecondaryIndex.index c6_idx) c6_bt
   \<and> MultiValue_find c6_idx 7 = Inr [c6_rid 10, c6_rid 11, c6_rid 12]
   \<and> MultiValue_count c6_idx 7 = Inr 3
   \<and> MultiValue_find c6_idx 8 = Inr []
   \<and> MultiValue_count c6_idx 9 = Inr 1"
  using MultiValue_find_exact [OF c6_invariant, of 7] MultiValue_find_exact [OF c6_invariant, of 8]
    MultiValue_find_exact [OF c6_invariant, of 9] c6_invariant c6_idx_built
  by (simp add: c6_bt_def entries_def)

lemmas multi_update_eval = multi_eval MultiValue_update_def

lemma c6_u1_val:
  "fst (MultiValue_update (2, 7) (2, 9) (c6_rid 11) c6_s4) = Inr True
   \<and> fst c6_u1
       = c6_tree [CompositeKey 7 10] [CompositeKey 7 12, CompositeKey 9 11, CompositeKey 9 13]"
  by (simp add: c6_u1_def c6_idx_built c6_idx_def c6_tree_def c6_rid_def multi_update_eval
      btree_eval cong: let_weak_cong)

lemma c6_u2_val:
  "fst (MultiValue_update (2, 9) (2, 7) (c6_rid 11) c6_u1) = Inr True
   \<and> fst c6_u2
       = c6_tree [CompositeKey 7 10, CompositeKey 7 11] [CompositeKey 7 12, CompositeKey 9 13]"
  by (simp add: c6_u2_def c6_u1_val c6_tree_def c6_rid_def multi_update_eval btree_eval
      cong: let_weak_cong)

lemma c6_u3_val:
  "fst (MultiValue_update (2, 7) (2, 9) (c6_rid 11) c6_u2) = Inr False
   \<and> fst c6_u3
       = c6_tree [CompositeKey 7 10, CompositeKey 7 11] [CompositeKey 7 12, CompositeKey 9 13]"
  by (simp add: c6_u3_def c6_u2_val c6_tree_def c6_rid_def multi_update_eval btree_eval
      cong: let_weak_cong)

text \<open>
  C6 (the code departs from the claim). The index is built by four inserts: the field
  value 7 for the records on the pages 10, 11 and 12, the field value 9 for the record
  on page 13; the root holds the separator (7, 11). The record on page 11 is then
  updated from 7 to 9 and back to 7, and both updates return true. The second one
  inserts the key (7, 11), equal to the separator, into the left leaf
  (\<open>insert_non_full\<close> routes with \<open>lower_bound\<close>), where \<open>remove\<close> does not look for
  it. So the third update, from 7 to 9 again, returns false and changes nothing,
  and \<open>Table::update\<close> drops that result. The records whose field value is 7 are now
  those on the pages 10 and 12, but \<open>find 7\<close> returns the pages 10, 11 and 12 and
  \<open>count 7\<close> is 3; the records whose field value is 9 are those on the pages 11 and
  13, but \<open>find 9\<close> returns page 13 only and \<open>count 9\<close> is 1.
\<close>

theorem MultiValue_find_after_updates:
  "fst c6_s4 = c6_idx
   \<and> fst (MultiValue_update (2, 7) (2, 9) (c6_rid 11) c6_s4) = Inr True
   \<and> fst (MultiValue_update (2, 9) (2, 7) (c6_rid 11) c6_u1) = Inr True
   \<and> fst (MultiValue_update (2, 7) (2, 9) (c6_rid 11) c6_u2) = Inr False
   \<and> c6_records_with 7 = [c6_rid 10, c6_rid 12]
   \<and> MultiValue_find (fst c6_u3) 7 = Inr [c6_rid 10, c6_rid 11, c6_rid 12]
   \<and> MultiValue_count (fst c6_u3) 7 = Inr 3
   \<and> c6_records_with 9 = [c6_rid 11, c6_rid 13]
   \<and> MultiValue_find (fst c6_u3) 9 = Inr [c6_rid 13]
   \<and> MultiValue_count (fst c6_u3) 9 = Inr 1"
  using c6_u1_val c6_u2_val c6_u3_val c6_idx_built
  by (simp add: c6_tree_def c6_records_with_def c6_records_def c6_rid_def multi_eval btree_eval
      cong: let_weak_cong)

section \<open>Update of the unique secondary index (C8)\<close>

lemma lower_pos_le: "lower_pos k ks \<le> length ks"
  by (simp add: lower_pos_def length_takeWhile_le)

lemma upper_pos_le: "upper_pos k ks \<le> length ks"
  by (simp add: upper_pos_def length_takeWhile_le)

lemma lower_pos_upper_pos: "k \<notin> set ks \<Longrightarrow> lower_pos k ks = upper_pos k ks"
proof -
  assume a: "k \<notin> set ks"
  have "takeWhile (\<lambda>x. x < k) ks = takeWhile (\<lambda>x. x \<le> k) ks"
  proof (rule takeWhile_cong)
    show "ks = ks" by simp
  next
    fix x assume "x \<in> set ks"
    with a have "x \<noteq> k" by auto
    then show "(x < k) = (x \<le> k)" by auto
  qed
  then show ?thesis by (simp add: lower_pos_def upper_pos_def)
qed

lemma lower_pos_Cons:
  "lower_pos k (x # xs) = (if x < k then Suc (lower_pos k xs) else 0)"
  by (simp add: lower_pos_def)




lemma leaf_delete_Cons:
  "leaf_delete k (e # es) =
     (if fst e < k then e # leaf_delete k es else if fst e = k then es else e # es)"
  by (auto simp add: leaf_delete_def lower_pos_Cons Let_def erase_at_def)

lemma leaf_insert_Cons:
  "leaf_insert k v (e # es) =
     (if fst e < k then e # leaf_insert k v es else if fst e = k then e # es else (k, v) # e # es)"
  by (auto simp add: leaf_insert_def lower_pos_Cons Let_def insert_at_def)

lemma leaf_delete_Nil: "leaf_delete k [] = []"
  by (simp add: leaf_delete_def lower_pos_def)

lemma leaf_insert_Nil: "leaf_insert k v [] = [(k, v)]"
  by (simp add: leaf_insert_def lower_pos_def insert_at_def)

lemma leaf_delete_set: "set (leaf_delete k es) \<subseteq> set es"
  by (induction es) (auto simp add: leaf_delete_Nil leaf_delete_Cons)


lemma leaf_delete_sorted:
  "sorted_wrt (<) (map fst es) \<Longrightarrow> sorted_wrt (<) (map fst (leaf_delete k es))"
proof (induction es)
  case Nil
  show ?case by (simp add: leaf_delete_Nil)
next
  case (Cons e es)
  then show ?case using leaf_delete_set [of k es] by (auto simp add: leaf_delete_Cons)
qed


lemma leaf_insert_keys: "fst ` set (leaf_insert k v es) = insert k (fst ` set es)"
  by (induction es) (auto simp add: leaf_insert_Nil leaf_insert_Cons)

lemma leaf_insert_sorted:
  "sorted_wrt (<) (map fst es) \<Longrightarrow> sorted_wrt (<) (map fst (leaf_insert k v es))"
proof (induction es)
  case Nil
  show ?case by (simp add: leaf_insert_Nil)
next
  case (Cons e es)
  have "\<forall>y \<in> fst ` set (leaf_insert k v es). fst e < y" if "fst e < k"
    using Cons.prems that by (auto simp add: leaf_insert_keys)
  then show ?case using Cons by (auto simp add: leaf_insert_Cons)
qed


lemma bpt_find_Nd:
  "bpt_find k (Nd p ks ts) =
     (if upper_pos k ks < length ts then bpt_find k (ts ! upper_pos k ks) else None)"
  by (simp add: Let_def)

lemma bpt_delete_Nd:
  "bpt_delete k (Nd p ks ts) =
     (if upper_pos k ks < length ts
      then Nd p ks (ts[upper_pos k ks := bpt_delete k (ts ! upper_pos k ks)])
      else Nd p ks ts)"
  by (simp add: Let_def)

lemma bpt_insert_Nd:
  "bpt_insert k v (Nd p ks ts) =
     (if lower_pos k ks < length ts
      then Nd p ks (ts[lower_pos k ks := bpt_insert k v (ts ! lower_pos k ks)])
      else Nd p ks ts)"
  by (simp add: Let_def)

lemma room_for_Nd:
  "room_for k (Nd p ks ts) \<longleftrightarrow>
     length ks < MAX_KEYS \<and> k \<notin> set ks \<and> lower_pos k ks < length ts
     \<and> room_for k (ts ! lower_pos k ks)"
  by (auto simp add: Let_def)

lemmas bpt_Nd = bpt_find_Nd bpt_delete_Nd bpt_insert_Nd room_for_Nd

declare bpt_find.simps(2) [simp del] bpt_delete.simps(2) [simp del]
  bpt_insert.simps(2) [simp del] room_for.simps(2) [simp del]

lemma node_id_bpt_delete [simp]: "node_id (bpt_delete k bt) = node_id bt"
  by (cases bt) (simp_all add: bpt_Nd)

lemma node_id_bpt_insert [simp]: "node_id (bpt_insert k v bt) = node_id bt"
  by (cases bt) (simp_all add: bpt_Nd)

lemma concat_map_update:
  "i < length ts \<Longrightarrow> f (ts ! i) = f x \<Longrightarrow> concat (map f (ts[i := x])) = concat (map f ts)"
  by (simp add: map_update list_update_same_conv [THEN iffD2])

lemma ids_bpt_delete [simp]: "ids (bpt_delete k bt) = ids bt"
proof (induction bt)
  case (Lf p es) show ?case by simp
next
  case (Nd p ks ts)
  show ?case
  proof (cases "upper_pos k ks < length ts")
    case True
    then have "ts ! upper_pos k ks \<in> set ts" by simp
    from Nd [OF this] True show ?thesis
      by (simp add: bpt_Nd concat_map_update)
  next
    case False then show ?thesis by (simp add: bpt_Nd)
  qed
qed

lemma ids_bpt_insert [simp]: "ids (bpt_insert k v bt) = ids bt"
proof (induction bt)
  case (Lf p es) show ?case by simp
next
  case (Nd p ks ts)
  show ?case
  proof (cases "lower_pos k ks < length ts")
    case True
    then have "ts ! lower_pos k ks \<in> set ts" by simp
    from Nd [OF this] True show ?thesis
      by (simp add: bpt_Nd concat_map_update)
  next
    case False then show ?thesis by (simp add: bpt_Nd)
  qed
qed

lemma set_update_cases: "x \<in> set (ts[i := y]) \<Longrightarrow> x = y \<or> x \<in> set ts"
  using set_update_subset_insert [of ts i y] by auto

lemma node_keys_ok_bpt_delete: "node_keys_ok bt \<Longrightarrow> node_keys_ok (bpt_delete k bt)"
proof (induction bt)
  case (Lf p es) then show ?case by (simp add: leaf_delete_sorted)
next
  case (Nd p ks ts)
  show ?case
  proof (cases "upper_pos k ks < length ts")
    case True
    then have m: "ts ! upper_pos k ks \<in> set ts" by simp
    with Nd have "node_keys_ok (bpt_delete k (ts ! upper_pos k ks))" by simp
    with Nd.prems True show ?thesis
      by (auto simp add: bpt_Nd dest!: set_update_cases)
  next
    case False with Nd.prems show ?thesis by (simp add: bpt_Nd)
  qed
qed

lemma node_keys_ok_bpt_insert: "node_keys_ok bt \<Longrightarrow> node_keys_ok (bpt_insert k v bt)"
proof (induction bt)
  case (Lf p es) then show ?case by (simp add: leaf_insert_sorted)
next
  case (Nd p ks ts)
  show ?case
  proof (cases "lower_pos k ks < length ts")
    case True
    then have m: "ts ! lower_pos k ks \<in> set ts" by simp
    with Nd have "node_keys_ok (bpt_insert k v (ts ! lower_pos k ks))" by simp
    with Nd.prems True show ?thesis
      by (auto simp add: bpt_Nd dest!: set_update_cases)
  next
    case False with Nd.prems show ?thesis by (simp add: bpt_Nd)
  qed
qed




lemma map_of_node_store:
  "map_of (node_store pid n c) k = (if k = pid then Some n else map_of c k)"
proof (cases "pid \<in> fst ` set c")
  case True
  then obtain v where "map_of c pid = Some v"
    by (metis domD dom_map_of_conv_image_fst)
  with True show ?thesis by (simp add: node_store_def map_of_replace)
next
  case False
  then have "map_of c pid = None" by (simp add: map_of_eq_None_iff)
  with False show ?thesis
    by (auto simp add: node_store_def map_add_def split: option.splits)
qed

lemma length_node_store:
  "map_of c pid = Some m \<Longrightarrow> length (node_store pid n c) = length c"
  by (auto simp add: node_store_def dest: map_of_SomeD intro: rev_image_eqI)

lemma shape_frame:
  "(\<And>q. q \<in> set (ids bt) \<Longrightarrow> map_of (node_cache t') q = map_of (node_cache t) q)
     \<Longrightarrow> shape t' bt = shape t bt"
proof (induction bt)
  case (Lf p es)
  then show ?case by simp
next
  case (Nd p ks ts)
  have "shape t' c = shape t c" if "c \<in> set ts" for c
    using that Nd.prems by (intro Nd.IH) auto
  moreover have "map_of (node_cache t') p = map_of (node_cache t) p"
    using Nd.prems by simp
  ultimately show ?case by auto
qed

lemma shape_node_id: "shape t bt \<Longrightarrow> node_id bt \<noteq> 0"
  by (cases bt) auto


lemma depth_le_cache:
  assumes "shape t bt" and "distinct (ids bt)"
  shows "depth bt \<le> length (node_cache t)"
  using depth_le_ids [of bt] distinct_subset_length [OF assms(2) shape_ids [OF assms(1)]]
  by simp


lemma map_erase_at: "map f (erase_at i xs) = erase_at i (map f xs)"
  by (simp add: erase_at_def take_map drop_map)

lemma map_insert_at: "map f (insert_at i x xs) = insert_at i (f x) (map f xs)"
  by (simp add: insert_at_def take_map drop_map)

lemma distinct_concat_nth:
  "distinct (concat xss) \<Longrightarrow> i < length xss \<Longrightarrow> j < length xss \<Longrightarrow> i \<noteq> j
     \<Longrightarrow> set (xss ! i) \<inter> set (xss ! j) = {}"
proof (induction xss arbitrary: i j)
  case Nil
  then show ?case by simp
next
  case (Cons xs xss)
  show ?case
  proof (cases i)
    case 0
    with Cons.prems obtain j' where j: "j = Suc j'" by (cases j) auto
    with Cons.prems have "xss ! j' \<in> set xss" by simp
    with Cons.prems(1) 0 j show ?thesis by auto
  next
    case (Suc i')
    show ?thesis
    proof (cases j)
      case 0
      from Cons.prems Suc have "xss ! i' \<in> set xss" by simp
      with Cons.prems(1) 0 Suc show ?thesis by auto
    next
      case j: (Suc j')
      with Cons Suc show ?thesis by simp
    qed
  qed
qed

lemma distinct_concat_member:
  "distinct (concat xss) \<Longrightarrow> xs \<in> set xss \<Longrightarrow> distinct xs"
  by (induction xss) auto

lemma ids_children:
  assumes "distinct (ids (Nd p ks ts))" and "i < length ts"
  shows "distinct (ids (ts ! i))" and "p \<notin> set (ids (ts ! i))"
    and "\<And>j. j < length ts \<Longrightarrow> j \<noteq> i \<Longrightarrow> set (ids (ts ! j)) \<inter> set (ids (ts ! i)) = {}"
proof -
  from assms(1) have d: "distinct (concat (map ids ts))" and n: "p \<notin> set (concat (map ids ts))"
    by simp_all
  have m: "ids (ts ! i) \<in> set (map ids ts)" using assms(2) by simp
  show "distinct (ids (ts ! i))" using distinct_concat_member [OF d m] .
  show "p \<notin> set (ids (ts ! i))" using n assms(2) by auto
  fix j assume "j < length ts" "j \<noteq> i"
  then show "set (ids (ts ! j)) \<inter> set (ids (ts ! i)) = {}"
    using distinct_concat_nth [OF d, of j i] assms(2) by simp
qed

lemma node_id_in_ids: "node_id bt \<in> set (ids bt)"
  by (cases bt) simp_all

lemma remove_from_node_spec:
  assumes "shape t bt" and "distinct (ids bt)" and "depth bt \<le> fuel"
    and "map_of (node_cache t) (node_id bt) = Some node"
  shows "\<exists>t' node'.
           remove_from_node fuel node k (t, st) = (Inr (bpt_find k bt \<noteq> None, node'), (t', st))
         \<and> shape t' (bpt_delete k bt)
         \<and> (\<forall>q. q \<notin> set (ids bt) \<longrightarrow> map_of (node_cache t') q = map_of (node_cache t) q)
         \<and> map_of (node_cache t') (node_id bt) = Some node'
         \<and> Node.page_id node' = node_id bt
         \<and> is_leaf node' = is_leaf node \<and> (\<not> is_leaf node \<longrightarrow> node' = node)
         \<and> PersistentBTreeIndex.root_page_id t' = PersistentBTreeIndex.root_page_id t
         \<and> tree_size t' = tree_size t
         \<and> length (node_cache t') = length (node_cache t)"
  using assms
proof (induction bt arbitrary: fuel node t)
  case (Lf p es)
  then obtain f where f: "fuel = Suc f" by (cases fuel) auto
  from Lf.prems(1,4) have n: "Node.page_id node = p" "is_leaf node" "keys node = map fst es"
    "vals node = map snd es" "map_of (node_cache t) p = Some node"
    by (auto split: option.splits)
  let ?i = "lower_pos k (map fst es)"
  show ?case
  proof (cases "?i < length es \<and> fst (es ! ?i) = k")
    case True
    let ?node1 = "node\<lparr>keys := erase_at ?i (keys node), vals := erase_at ?i (vals node)\<rparr>"
    let ?t' = "t\<lparr>node_cache := node_store p ?node1 (node_cache t)\<rparr>"
    have r: "remove_from_node fuel node k (t, st) = (Inr (True, ?node1), (?t', st))"
      using True n
      by (auto simp add: f lower_pos_def Let_def bindS_def returnS_def save_node_def)
    have b: "bpt_find k (Lf p es) \<noteq> None" using True by (simp add: leaf_find_def Let_def)
    have d: "leaf_delete k es = erase_at ?i es"
      using True by (simp add: leaf_delete_def Let_def)
    have s: "shape ?t' (Lf p (erase_at ?i es))"
      using Lf.prems(1) n by (simp add: map_of_node_store map_erase_at)
    show ?thesis
      using r b s n
      by (simp add: d map_of_node_store length_node_store)
  next
    case False
    have r: "remove_from_node fuel node k (t, st) = (Inr (False, node), (t, st))"
      using False n
      by (auto simp add: f lower_pos_def Let_def bindS_def returnS_def save_node_def)
    have b: "bpt_find k (Lf p es) = None" using False by (auto simp add: leaf_find_def Let_def)
    have d: "leaf_delete k es = es"
      using False by (auto simp add: leaf_delete_def Let_def)
    show ?thesis using r b Lf.prems(1) n by (simp add: d)
  qed
next
  case (Nd p ks ts)
  then obtain f where f: "fuel = Suc f" by (cases fuel) auto
  from Nd.prems(1,4) have n: "Node.page_id node = p" "\<not> is_leaf node" "keys node = ks"
    "children_ids node = map node_id ts" "length ts = length ks + 1" "p \<noteq> 0"
    "map_of (node_cache t) p = Some node"
    by (auto split: option.splits)
  let ?i = "upper_pos k ks"
  let ?c = "ts ! ?i"
  have i: "?i < length ts" using upper_pos_le [of k ks] n(5) by simp
  then have m: "?c \<in> set ts" by simp
  have dc: "depth ?c \<le> f" using depth_child [OF m] Nd.prems(3) f by simp
  have sc: "shape t ?c" using Nd.prems(1) m by simp
  note ic = ids_children [OF Nd.prems(2) i]
  obtain cn where cn: "map_of (node_cache t) (node_id ?c) = Some cn"
    using sc by (cases ?c) (auto split: option.splits)
  from Nd.IH [OF m sc ic(1) dc cn]
  obtain t1 cn' where
    r1: "remove_from_node f cn k (t, st) = (Inr (bpt_find k ?c \<noteq> None, cn'), (t1, st))"
    and s1: "shape t1 (bpt_delete k ?c)"
    and fr1: "\<And>q. q \<notin> set (ids ?c) \<Longrightarrow> map_of (node_cache t1) q = map_of (node_cache t) q"
    and rt1: "PersistentBTreeIndex.root_page_id t1 = PersistentBTreeIndex.root_page_id t"
    and sz1: "tree_size t1 = tree_size t"
    and ln1: "length (node_cache t1) = length (node_cache t)"
    by blast
  let ?t' = "t1\<lparr>node_cache := node_store p node (node_cache t1)\<rparr>"
  have p1: "map_of (node_cache t1) p = Some node" using fr1 [OF ic(2)] n(7) by simp
  have r: "remove_from_node fuel node k (t, st) = (Inr (bpt_find k ?c \<noteq> None, node), (?t', st))"
    using n i r1 cn
    by (simp add: f upper_pos_def Let_def bindS_def returnS_def save_node_def load_node_def
        node_at_def)
  have b: "bpt_find k (Nd p ks ts) = bpt_find k ?c" using i by (simp add: bpt_Nd)
  have d: "bpt_delete k (Nd p ks ts) = Nd p ks (ts[?i := bpt_delete k ?c])"
    using i by (simp add: bpt_Nd)
  have eq: "map_of (node_cache ?t') q = map_of (node_cache t1) q" for q
    using p1 by (simp add: map_of_node_store)
  have sh: "shape ?t' c" if c: "c \<in> set (ts[?i := bpt_delete k ?c])" for c
  proof -
    from c obtain j where j: "j < length ts" "c = (ts[?i := bpt_delete k ?c]) ! j"
      by (auto simp add: in_set_conv_nth)
    show ?thesis
    proof (cases "j = ?i")
      case True
      with j i have "c = bpt_delete k ?c" by simp
      with s1 show ?thesis using shape_frame [of c ?t' t1] eq by simp
    next
      case False
      with j have cj: "c = ts ! j" by simp
      have "shape t c" using Nd.prems(1) j(1) cj by simp
      moreover have "map_of (node_cache ?t') q = map_of (node_cache t) q" if "q \<in> set (ids c)" for q
      proof -
        have "q \<notin> set (ids ?c)" using ic(3) [OF j(1) False] that cj by auto
        then show ?thesis using fr1 eq by simp
      qed
      ultimately show ?thesis using shape_frame [of c ?t' t] by simp
    qed
  qed
  have s: "shape ?t' (Nd p ks (ts[?i := bpt_delete k ?c]))"
    using n sh i p1 by (simp add: map_of_node_store map_update list_update_same_conv [THEN iffD2])
  have fr: "map_of (node_cache ?t') q = map_of (node_cache t) q" if "q \<notin> set (ids (Nd p ks ts))" for q
  proof -
    have "q \<notin> set (ids ?c)" using that m by auto
    then show ?thesis using fr1 eq by simp
  qed
  show ?case
    using r s fr n rt1 sz1 ln1 p1
    by (simp add: b d map_of_node_store length_node_store)
qed

lemma room_for_not_full:
  assumes "shape t bt" and "room_for k bt" and "map_of (node_cache t) (node_id bt) = Some n"
  shows "\<not> is_full n"
  using assms by (cases bt) (auto simp add: is_full_def bpt_Nd split: option.splits)

lemma insert_non_full_spec:
  assumes "shape t bt" and "distinct (ids bt)" and "depth bt \<le> fuel"
    and "map_of (node_cache t) (node_id bt) = Some node" and "room_for k bt"
  shows "\<exists>t'.
           insert_non_full fuel node k v (t, st) = (Inr (bpt_find k bt = None), (t', st))
         \<and> shape t' (bpt_insert k v bt)
         \<and> (\<forall>q. q \<notin> set (ids bt) \<longrightarrow> map_of (node_cache t') q = map_of (node_cache t) q)
         \<and> PersistentBTreeIndex.root_page_id t' = PersistentBTreeIndex.root_page_id t
         \<and> tree_size t' = tree_size t
         \<and> length (node_cache t') = length (node_cache t)"
  using assms
proof (induction bt arbitrary: fuel node t)
  case (Lf p es)
  then obtain f where f: "fuel = Suc f" by (cases fuel) auto
  from Lf.prems(1,4) have n: "Node.page_id node = p" "is_leaf node" "keys node = map fst es"
    "vals node = map snd es" "map_of (node_cache t) p = Some node"
    by (auto split: option.splits)
  let ?i = "lower_pos k (map fst es)"
  show ?case
  proof (cases "?i < length es \<and> fst (es ! ?i) = k")
    case True
    have r: "insert_non_full fuel node k v (t, st) = (Inr False, (t, st))"
      using True n
      by (auto simp add: f find_insert_pos_def lower_pos_def Let_def bindS_def returnS_def)
    have b: "leaf_find k es \<noteq> None" using True by (simp add: leaf_find_def Let_def)
    have d: "leaf_insert k v es = es" using True by (simp add: leaf_insert_def Let_def)
    show ?thesis using r b Lf.prems(1) n by (auto simp add: d)
  next
    case False
    let ?node1 = "node\<lparr>keys := insert_at ?i k (keys node), vals := insert_at ?i v (vals node)\<rparr>"
    let ?t' = "t\<lparr>node_cache := node_store p ?node1 (node_cache t)\<rparr>"
    have r: "insert_non_full fuel node k v (t, st) = (Inr True, (?t', st))"
      using False n
      by (auto simp add: f find_insert_pos_def lower_pos_def Let_def bindS_def returnS_def
          save_node_def)
    have b: "leaf_find k es = None" using False by (auto simp add: leaf_find_def Let_def)
    have d: "leaf_insert k v es = insert_at ?i (k, v) es"
      using False by (auto simp add: leaf_insert_def Let_def)
    have s: "shape ?t' (Lf p (insert_at ?i (k, v) es))"
      using Lf.prems(1) n by (simp add: map_of_node_store map_insert_at)
    show ?thesis
      using r b s n by (simp add: d map_of_node_store length_node_store)
  qed
next
  case (Nd p ks ts)
  then obtain f where f: "fuel = Suc f" by (cases fuel) auto
  from Nd.prems(1,4) have n: "Node.page_id node = p" "\<not> is_leaf node" "keys node = ks"
    "children_ids node = map node_id ts" "length ts = length ks + 1" "p \<noteq> 0"
    "map_of (node_cache t) p = Some node"
    by (auto split: option.splits)
  let ?i = "lower_pos k ks"
  let ?c = "ts ! ?i"
  from Nd.prems(5) have rf: "k \<notin> set ks" "?i < length ts" "room_for k ?c"
    by (simp_all add: bpt_Nd)
  have lu: "upper_pos k ks = ?i" using lower_pos_upper_pos [OF rf(1)] by simp
  note i = rf(2)
  then have m: "?c \<in> set ts" by simp
  have dc: "depth ?c \<le> f" using depth_child [OF m] Nd.prems(3) f by simp
  have sc: "shape t ?c" using Nd.prems(1) m by simp
  note ic = ids_children [OF Nd.prems(2) i]
  obtain cn where cn: "map_of (node_cache t) (node_id ?c) = Some cn"
    using sc by (cases ?c) (auto split: option.splits)
  have nf: "\<not> is_full cn" using room_for_not_full [OF sc rf(3) cn] .
  from Nd.IH [OF m sc ic(1) dc cn rf(3)]
  obtain t1 where
    r1: "insert_non_full f cn k v (t, st) = (Inr (bpt_find k ?c = None), (t1, st))"
    and s1: "shape t1 (bpt_insert k v ?c)"
    and fr1: "\<And>q. q \<notin> set (ids ?c) \<Longrightarrow> map_of (node_cache t1) q = map_of (node_cache t) q"
    and rt1: "PersistentBTreeIndex.root_page_id t1 = PersistentBTreeIndex.root_page_id t"
    and sz1: "tree_size t1 = tree_size t"
    and ln1: "length (node_cache t1) = length (node_cache t)"
    by blast
  have p1: "map_of (node_cache t1) p = Some node" using fr1 [OF ic(2)] n(7) by simp
  have r: "insert_non_full fuel node k v (t, st) = (Inr (bpt_find k ?c = None), (t1, st))"
    using n i r1 cn nf
    by (simp add: f find_insert_pos_def lower_pos_def Let_def bindS_def returnS_def
        load_node_def node_at_def at_index_def)
  have b: "bpt_find k (Nd p ks ts) = bpt_find k ?c" using i lu by (simp add: bpt_Nd)
  have d: "bpt_insert k v (Nd p ks ts) = Nd p ks (ts[?i := bpt_insert k v ?c])"
    using i by (simp add: bpt_Nd)
  have sh: "shape t1 c" if c: "c \<in> set (ts[?i := bpt_insert k v ?c])" for c
  proof -
    from c obtain j where j: "j < length ts" "c = (ts[?i := bpt_insert k v ?c]) ! j"
      by (auto simp add: in_set_conv_nth)
    show ?thesis
    proof (cases "j = ?i")
      case True
      with j i have "c = bpt_insert k v ?c" by simp
      with s1 show ?thesis by simp
    next
      case False
      with j have cj: "c = ts ! j" by simp
      have "shape t c" using Nd.prems(1) j(1) cj by simp
      moreover have "map_of (node_cache t1) q = map_of (node_cache t) q" if "q \<in> set (ids c)" for q
      proof -
        have "q \<notin> set (ids ?c)" using ic(3) [OF j(1) False] that cj by auto
        then show ?thesis using fr1 by simp
      qed
      ultimately show ?thesis using shape_frame [of c t1 t] by simp
    qed
  qed
  have s: "shape t1 (Nd p ks (ts[?i := bpt_insert k v ?c]))"
    using n sh i p1 by (simp add: map_update list_update_same_conv [THEN iffD2])
  have fr: "map_of (node_cache t1) q = map_of (node_cache t) q" if "q \<notin> set (ids (Nd p ks ts))" for q
  proof -
    have "q \<notin> set (ids ?c)" using that m by auto
    then show ?thesis using fr1 by simp
  qed
  show ?case
    using r s fr rt1 sz1 ln1 by (simp add: b d)
qed

lemma shape_same_cache: "node_cache t' = node_cache t \<Longrightarrow> shape t' bt = shape t bt"
  by (rule shape_frame) simp

lemma shape_root_node:
  "shape t bt \<Longrightarrow> \<exists>n. map_of (node_cache t) (node_id bt) = Some n"
  by (cases bt) (auto split: option.splits)


lemma BTree_remove_spec:
  assumes "index_tree t bt"
  shows "\<exists>t'. BTree_remove k (t, st) = (Inr (bpt_find k bt \<noteq> None), (t', st))
            \<and> index_tree t' (bpt_delete k bt)"
proof -
  from assms have rt: "PersistentBTreeIndex.root_page_id t = node_id bt" and sh: "shape t bt"
    and di: "distinct (ids bt)" and ok: "node_keys_ok bt"
    by (simp_all add: index_tree_def)
  obtain node where node: "map_of (node_cache t) (node_id bt) = Some node"
    using shape_root_node [OF sh] by blast
  have dp: "depth bt \<le> Suc (length (node_cache t))"
    using depth_le_cache [OF sh di] by simp
  from remove_from_node_spec [OF sh di dp node, of k st]
  obtain t1 node' where
    r1: "remove_from_node (Suc (length (node_cache t))) node k (t, st)
           = (Inr (bpt_find k bt \<noteq> None, node'), (t1, st))"
    and s1: "shape t1 (bpt_delete k bt)"
    and n1: "map_of (node_cache t1) (node_id bt) = Some node'"
    and pid: "Node.page_id node' = node_id bt"
    and lf: "is_leaf node' = is_leaf node" and same: "\<not> is_leaf node \<longrightarrow> node' = node"
    and rt1: "PersistentBTreeIndex.root_page_id t1 = PersistentBTreeIndex.root_page_id t"
    by blast
  have nocollapse: "\<not> (keys node' = [] \<and> \<not> is_leaf node' \<and> children_ids node' \<noteq> [])"
  proof (cases bt)
    case (Lf p es)
    with sh node have "is_leaf node" by (auto split: option.splits)
    with lf show ?thesis by simp
  next
    case (Nd p ks ts)
    with sh node ok have "\<not> is_leaf node" "keys node = ks" "ks \<noteq> []"
      by (auto split: option.splits)
    with same show ?thesis by simp
  qed
  let ?t2 = "t1\<lparr>node_cache := node_store (node_id bt) node' (node_cache t1)\<rparr>"
  let ?t3 = "if bpt_find k bt \<noteq> None then ?t2\<lparr>tree_size := tree_size ?t2 - 1\<rparr> else ?t2"
  have r: "BTree_remove k (t, st) = (Inr (bpt_find k bt \<noteq> None), (?t3, st))"
  proof (cases "is_leaf node'")
    case True
    with node rt r1 pid show ?thesis
      by (simp add: BTree_remove_def bindS_def returnS_def load_node_def node_at_def
          depth_bound_def save_node_def set_size_def Let_def del: remove_from_node.simps)
  next
    case False
    with nocollapse have "keys node' \<noteq> [] \<or> children_ids node' = []" by auto
    with node rt r1 pid show ?thesis
      by (auto simp add: BTree_remove_def bindS_def returnS_def load_node_def node_at_def
          depth_bound_def save_node_def set_size_def Let_def simp del: remove_from_node.simps)
  qed
  have "map_of (node_cache ?t3) q = map_of (node_cache t1) q" for q
    using n1 by (simp add: map_of_node_store)
  then have "shape ?t3 (bpt_delete k bt)"
    using s1 shape_frame [of "bpt_delete k bt" ?t3 t1] by simp
  moreover have "PersistentBTreeIndex.root_page_id ?t3 = node_id (bpt_delete k bt)"
    using rt rt1 by simp
  ultimately have "index_tree ?t3 (bpt_delete k bt)"
    using di ok by (simp add: index_tree_def node_keys_ok_bpt_delete)
  with r show ?thesis by blast
qed

lemma BTree_insert_spec:
  assumes "index_tree t bt" and "room_for k bt"
  shows "\<exists>t'. BTree_insert k v (t, st) = (Inr (bpt_find k bt = None), (t', st))
            \<and> index_tree t' (bpt_insert k v bt)"
proof -
  from assms have rt: "PersistentBTreeIndex.root_page_id t = node_id bt" and sh: "shape t bt"
    and di: "distinct (ids bt)" and ok: "node_keys_ok bt"
    by (simp_all add: index_tree_def)
  obtain node where node: "map_of (node_cache t) (node_id bt) = Some node"
    using shape_root_node [OF sh] by blast
  have nf: "\<not> is_full node" using room_for_not_full [OF sh assms(2) node] .
  have dp: "depth bt \<le> Suc (length (node_cache t))"
    using depth_le_cache [OF sh di] by simp
  from insert_non_full_spec [OF sh di dp node assms(2), of v st]
  obtain t1 where
    r1: "insert_non_full (Suc (length (node_cache t))) node k v (t, st)
           = (Inr (bpt_find k bt = None), (t1, st))"
    and s1: "shape t1 (bpt_insert k v bt)"
    and rt1: "PersistentBTreeIndex.root_page_id t1 = PersistentBTreeIndex.root_page_id t"
    by blast
  let ?t2 = "if bpt_find k bt = None then t1\<lparr>tree_size := tree_size t1 + 1\<rparr> else t1"
  have r: "BTree_insert k v (t, st) = (Inr (bpt_find k bt = None), (?t2, st))"
    using node rt r1 nf
    by (simp add: BTree_insert_def bindS_def returnS_def load_node_def node_at_def depth_bound_def
        set_size_def Let_def del: insert_non_full.simps)
  have "shape ?t2 (bpt_insert k v bt)"
    using s1 shape_same_cache [of ?t2 t1 "bpt_insert k v bt"] by simp
  moreover have "PersistentBTreeIndex.root_page_id ?t2 = node_id (bpt_insert k v bt)"
    using rt rt1 by simp
  ultimately have "index_tree ?t2 (bpt_insert k v bt)"
    using di ok by (simp add: index_tree_def node_keys_ok_bpt_insert)
  with r show ?thesis by blast
qed

text \<open>
  A new index is such a tree, and \<open>remove\<close> and an \<open>insert\<close> that has room keep it one.
\<close>

lemma BTree_new_index_tree:
  assumes "BTree_new [] 0 st = (Inr (), (t, st'))"
    and "PersistentBTreeIndex.root_page_id t \<noteq> 0"
  shows "index_tree t (Lf (PersistentBTreeIndex.root_page_id t) [])"
  using assms
  by (auto simp add: BTree_new_def allocate_node_def bindS_def returnS_def on_storage_def
      save_node_def set_root_def node_store_def Node_new_def index_tree_def
      split: prod.splits sum.splits)

lemma BTree_remove_index_tree:
  "index_tree t bt \<Longrightarrow> \<exists>bt'. index_tree (fst (snd (BTree_remove k (t, st)))) bt'"
  using BTree_remove_spec [of t bt k st] by auto

lemma BTree_insert_index_tree:
  "index_tree t bt \<Longrightarrow> room_for k bt \<Longrightarrow>
     \<exists>bt'. index_tree (fst (snd (BTree_insert k v (t, st)))) bt'"
  using BTree_insert_spec [of t bt k v st] by auto








text \<open>
  An update whose insert has no room: the right leaf of \<open>c8_s4\<close> is full and is split
  for the new value 50. The lookups afterwards are as in the theorem.
\<close>

lemma SecondaryIndex_update_with_split:
  "fst c8_split = Inr True
   \<and> SecondaryIndex_find (fst (snd c8_split)) 10 = Inr None
   \<and> SecondaryIndex_find (fst (snd c8_split)) 50 = Inr (Some (c8_rid 4))
   \<and> SecondaryIndex_find (fst (snd c8_split)) 20 = Inr (Some (c8_rid 5))
   \<and> SecondaryIndex_find (fst (snd c8_split)) 30 = Inr (Some (c8_rid 6))
   \<and> SecondaryIndex_find (fst (snd c8_split)) 40 = Inr (Some (c8_rid 7))
   \<and> length (node_cache (PersistentSecondaryIndex.index (fst (snd c8_split)))) = 4"
  by (simp add: c8_split_def c8_empty_def c8_s1_def c8_s2_def c8_s3_def c8_s4_def
      c8_rid_def fresh_db_def secondary_eval storage_eval btree_eval cong: let_weak_cong)

end
